theory Spec2Isabelle
  imports Main "HOL-Library.Sublist"
begin

section \<open>Data model\<close>

text \<open>
  The extraction engine of \<^verbatim>\<open>src/parse/services/v3_1.ts\<close>. Strings are lists of
  characters; the model is exact on ASCII text. A JavaScript object whose key order
  matters (\<^verbatim>\<open>Object.entries\<close>, \<^verbatim>\<open>Object.keys\<close>, \<^verbatim>\<open>for ... in\<close>) is an association
  list given in that enumeration order. A field that may be \<^verbatim>\<open>undefined\<close> or
  \<^verbatim>\<open>null\<close> is an option. Numbers are integers.
\<close>

text \<open>Values the engine passes through without looking inside.\<close>

datatype json =
  JNull
  | JBool bool
  | JNum int
  | JStr string
  | JArr "json list"
  | JObj "(string \<times> json) list"

text \<open>
  The four fields of a \<^verbatim>\<open>Model\<close> that \<^verbatim>\<open>areEqual\<close> reads, with the \<^verbatim>\<open>link\<close> chain
  (\<^verbatim>\<open>link: Model | null\<close>).
\<close>

datatype linkModel =
  LinkModel (l_type: string) (l_base: string) (l_template: "string option")
    (l_link: "linkModel option")

text \<open>
  The interface \<^verbatim>\<open>Model\<close>. The thirteen constraint fields \<^verbatim>\<open>format\<close>, \<^verbatim>\<open>maximum\<close>,
  \<^verbatim>\<open>exclusiveMaximum\<close>, \<^verbatim>\<open>minimum\<close>, \<^verbatim>\<open>exclusiveMinimum\<close>, \<^verbatim>\<open>multipleOf\<close>,
  \<^verbatim>\<open>maxLength\<close>, \<^verbatim>\<open>minLength\<close>, \<^verbatim>\<open>maxItems\<close>, \<^verbatim>\<open>minItems\<close>, \<^verbatim>\<open>uniqueItems\<close>,
  \<^verbatim>\<open>maxProperties\<close>, \<^verbatim>\<open>minProperties\<close> are only ever copied as a group and are
  one field here (\<open>None\<close> when all are undefined).
\<close>

record model =
  name :: string
  export :: string
  type :: string
  base :: string
  template :: "string option"
  link :: "linkModel option"
  description :: "string option"
  deprecated :: "bool option"
  default' :: "json option"
  isDefinition :: bool
  isReadOnly :: bool
  isRequired :: bool
  isNullable :: bool
  constraints :: "json option"
  pattern :: "string option"
  imports' :: "string list"
  enum' :: "json list"
  enums :: "json list"
  properties :: "json list"

record located = model +
  in' :: string

record operationResponse = located +
  code :: int

record operationParameter = located +
  prop' :: string
  mediaType :: "string option"

record operationError =
  error_code :: int
  error_description :: string

text \<open>
  \<^verbatim>\<open>OperationParameters\<close> and \<^verbatim>\<open>Operation\<close>, which extends it, and \<^verbatim>\<open>Service\<close>.
\<close>

record operationParameters =
  op_imports :: "string list"
  parameters :: "operationParameter list"
  parametersPath :: "operationParameter list"
  parametersQuery :: "operationParameter list"
  parametersForm :: "operationParameter list"
  parametersCookie :: "operationParameter list"
  parametersHeader :: "operationParameter list"
  parametersBody :: "operationParameter option"

record operation = operationParameters +
  op_id :: string
  op_name :: string
  op_summary :: "string option"
  op_description :: "string option"
  op_deprecated :: bool
  op_method :: string
  op_path :: string
  op_errors :: "operationError list"
  op_results :: "operationResponse list"
  op_responseHeader :: "string option"

record service =
  service_name :: string
  service_description :: "string option"
  service_operations :: "operation list"
  service_imports :: "string list"

subsection \<open>The input document\<close>

text \<open>
  The objects of \<^verbatim>\<open>openapi-types\<close> that the engine reads, each with the fields it
  reads. An object that may be given by reference carries the optional \<^verbatim>\<open>$ref\<close>.
\<close>

record schemaObject =
  so_ref :: "string option"
  so_body :: json

text \<open>A value as \<^verbatim>\<open>isDefined\<close> sees it.\<close>

datatype 'a field = Undefined | Null | EmptyString | Defined 'a

record mediaTypeObject =
  mt_schema :: "schemaObject field"

type_synonym contentMap = "(string \<times> mediaTypeObject) list"

record responseObject =
  ro_ref :: "string option"
  ro_description :: "string option"
  ro_content :: "contentMap option"
  ro_headers :: "(string \<times> json) list option"

record requestBodyObject =
  rb_ref :: "string option"
  rb_description :: "string option"
  rb_required :: "bool option"
  rb_content :: "contentMap option"

record parameterObject =
  po_ref :: "string option"
  po_name :: string
  po_in :: string
  po_description :: "string option"
  po_deprecated :: "bool option"
  po_required :: "bool option"
  po_schema :: "schemaObject option"

record operationObject =
  oo_operationId :: "string option"
  oo_summary :: "string option"
  oo_description :: "string option"
  oo_deprecated :: "bool option"
  oo_tags :: "string list option"
  oo_parameters :: "parameterObject list option"
  oo_requestBody :: "requestBodyObject option"
  oo_responses :: "(string \<times> responseObject) list option"

record pathItemObject =
  pi_parameters :: "parameterObject list option"
  pi_get :: "operationObject option"
  pi_post :: "operationObject option"
  pi_put :: "operationObject option"
  pi_delete :: "operationObject option"
  pi_patch :: "operationObject option"
  pi_options :: "operationObject option"
  pi_head :: "operationObject option"

record tagObject =
  tag_name :: string
  tag_description :: "string option"

record document =
  doc_tags :: "tagObject list option"
  doc_paths :: "(string \<times> pathItemObject option) list option"
  doc_components :: json

subsection \<open>The imported resolvers\<close>

text \<open>
  \<^verbatim>\<open>getRef\<close> is imported from \<^verbatim>\<open>../common/v3_1\<close> and \<^verbatim>\<open>getModel\<close>,
  \<^verbatim>\<open>getModelDefault\<close>, \<^verbatim>\<open>getPattern\<close>, \<^verbatim>\<open>getType\<close> from \<^verbatim>\<open>../models/v3_1\<close>.
  Every function that calls one of them takes them as the parameter \<open>lib\<close>;
  \<^verbatim>\<open>getRef\<close> has one field for each type it is used at. They are total functions:
  what they do on a dangling reference is their own concern.
\<close>

record resolvers =
  getRefParameter :: "document \<Rightarrow> parameterObject \<Rightarrow> parameterObject"
  getRefRequestBody :: "document \<Rightarrow> requestBodyObject \<Rightarrow> requestBodyObject"
  getRefResponse :: "document \<Rightarrow> responseObject \<Rightarrow> responseObject"
  getRefSchema :: "document \<Rightarrow> schemaObject \<Rightarrow> schemaObject"
  getType :: "string \<Rightarrow> model"
  getModel :: "document \<Rightarrow> string \<Rightarrow> schemaObject \<Rightarrow> model"
  getModelDefault :: "schemaObject \<Rightarrow> json option"
  getPattern :: "string option \<Rightarrow> string option"

section \<open>JavaScript primitives\<close>

text \<open>Truthiness of a \<^verbatim>\<open>string | null | undefined\<close>.\<close>

definition truthy :: "string option \<Rightarrow> bool" where
  "truthy s = (s \<noteq> None \<and> s \<noteq> Some [])"

text \<open>\<^verbatim>\<open>Array.prototype.findIndex\<close>: the first index whose element satisfies the test, or -1.\<close>

fun findIndex :: "('a \<Rightarrow> bool) \<Rightarrow> 'a list \<Rightarrow> int" where
  "findIndex P [] = - 1"
| "findIndex P (x # xs) =
     (if P x then 0 else (let k = findIndex P xs in if k < 0 then - 1 else k + 1))"

text \<open>\<^verbatim>\<open>Array.prototype.filter\<close> with the three-argument callback (element, index, array).\<close>

definition filterIndexed :: "('a \<Rightarrow> nat \<Rightarrow> 'a list \<Rightarrow> bool) \<Rightarrow> 'a list \<Rightarrow> 'a list" where
  "filterIndexed f arr = map fst (filter (\<lambda>(x, i). f x i arr) (zip arr [0..<length arr]))"

text \<open>
  \<^verbatim>\<open>Array.prototype.sort\<close> with a comparator. The package runs on Node 16, where the sort
  is stable; for a consistent comparator the result is that of a stable insertion sort.
\<close>

fun insertWith :: "('a \<Rightarrow> 'a \<Rightarrow> int) \<Rightarrow> 'a \<Rightarrow> 'a list \<Rightarrow> 'a list" where
  "insertWith cmp x [] = [x]"
| "insertWith cmp x (y # ys) =
     (if cmp x y \<le> 0 then x # y # ys else y # insertWith cmp x ys)"

definition array_sort :: "('a \<Rightarrow> 'a \<Rightarrow> int) \<Rightarrow> 'a list \<Rightarrow> 'a list" where
  "array_sort cmp xs = foldr (insertWith cmp) xs []"

subsection \<open>Characters and strings\<close>

definition isDigit :: "char \<Rightarrow> bool" where
  "isDigit c = (c \<in> set ''0123456789'')"

definition lowerLetters :: string where
  "lowerLetters = ''abcdefghijklmnopqrstuvwxyz''"

definition upperLetters :: string where
  "upperLetters = ''ABCDEFGHIJKLMNOPQRSTUVWXYZ''"

text \<open>The class \<^verbatim>\<open>[a-zA-Z]\<close>.\<close>

definition isLetter :: "char \<Rightarrow> bool" where
  "isLetter c = (c \<in> set lowerLetters \<or> c \<in> set upperLetters)"

text \<open>The class \<^verbatim>\<open>\w\<close>, which is \<^verbatim>\<open>[A-Za-z0-9_]\<close>.\<close>

definition isWordChar :: "char \<Rightarrow> bool" where
  "isWordChar c = (isLetter c \<or> isDigit c \<or> c = CHR ''_'')"

text \<open>White space of \<^verbatim>\<open>trim\<close> and \<^verbatim>\<open>parseInt\<close> (tab, line feed, vertical tab, form feed,
  carriage return, space).\<close>

definition isWhiteSpace :: "char \<Rightarrow> bool" where
  "isWhiteSpace c = (c \<in> set [CHR 0x09, CHR 0x0A, CHR 0x0B, CHR 0x0C, CHR 0x0D, CHR '' ''])"

text \<open>Line terminators, which \<^verbatim>\<open>.\<close> does not match.\<close>

definition isLineTerminator :: "char \<Rightarrow> bool" where
  "isLineTerminator c = (c = CHR 0x0A \<or> c = CHR 0x0D)"

definition toLowerChar :: "char \<Rightarrow> char" where
  "toLowerChar c = (case map_of (zip upperLetters lowerLetters) c of Some l \<Rightarrow> l | None \<Rightarrow> c)"

definition toUpperChar :: "char \<Rightarrow> char" where
  "toUpperChar c = (case map_of (zip lowerLetters upperLetters) c of Some u \<Rightarrow> u | None \<Rightarrow> c)"

definition toLowerCase :: "string \<Rightarrow> string" where
  "toLowerCase s = map toLowerChar s"

definition toUpperCase :: "string \<Rightarrow> string" where
  "toUpperCase s = map toUpperChar s"

definition trim :: "string \<Rightarrow> string" where
  "trim s = rev (dropWhile isWhiteSpace (rev (dropWhile isWhiteSpace s)))"

definition startsWith :: "string \<Rightarrow> string \<Rightarrow> bool" where
  "startsWith s p = (take (length p) s = p)"

text \<open>\<^verbatim>\<open>s.split(sep)\<close> for a one-character separator; never the empty list.\<close>

fun split :: "char \<Rightarrow> string \<Rightarrow> string list" where
  "split sep [] = [[]]"
| "split sep (c # cs) =
     (if c = sep then [] # split sep cs
      else (case split sep cs of [] \<Rightarrow> [[c]] | p # ps \<Rightarrow> (c # p) # ps))"

subsection \<open>Numbers from strings\<close>

text \<open>
  \<^verbatim>\<open>parseInt(value)\<close> with no radix: white space is skipped, then an optional sign, then
  \<^verbatim>\<open>0x\<close> or \<^verbatim>\<open>0X\<close> selects radix 16, then the longest run of digits of the radix is
  read and the rest ignored. \<open>None\<close> is \<^verbatim>\<open>NaN\<close>. The result is the mathematical
  integer, which is the JavaScript number whenever its magnitude is below \<open>2 ^ 53\<close>.
\<close>

definition digitValue :: "char \<Rightarrow> nat" where
  "digitValue c = length (takeWhile (\<lambda>d. d \<noteq> toLowerChar c) ''0123456789abcdef'')"

definition isRadixDigit :: "nat \<Rightarrow> char \<Rightarrow> bool" where
  "isRadixDigit R c = (toLowerChar c \<in> set ''0123456789abcdef'' \<and> digitValue c < R)"

definition mathInt :: "nat \<Rightarrow> string \<Rightarrow> int" where
  "mathInt R Z = foldl (\<lambda>acc c. acc * int R + int (digitValue c)) 0 Z"

definition parseInt :: "string \<Rightarrow> int option" where
  "parseInt inputString =
     (let S = dropWhile isWhiteSpace inputString;
          sign = (if S \<noteq> [] \<and> hd S = CHR ''-'' then - 1 else 1 :: int);
          S = (if S \<noteq> [] \<and> (hd S = CHR ''+'' \<or> hd S = CHR ''-'') then tl S else S);
          hex = (startsWith S ''0x'' \<or> startsWith S ''0X'');
          R = (if hex then 16 else 10);
          S = (if hex then drop 2 S else S);
          Z = takeWhile (isRadixDigit R) S
      in if Z = [] then None else Some (sign * mathInt R Z))"

subsection \<open>The regular expressions of the identifier sanitizer\<close>

text \<open>\<^verbatim>\<open>s.replace(/^[^a-zA-Z]+/g, "")\<close>: the leading run of non-letters is removed.\<close>

definition stripLeadingNonLetters :: "string \<Rightarrow> string" where
  "stripLeadingNonLetters s = dropWhile (\<lambda>c. \<not> isLetter c) s"

text \<open>\<^verbatim>\<open>s.replace(/[^\w-]+/g, "-")\<close>: every maximal run of characters outside
  \<^verbatim>\<open>[A-Za-z0-9_-]\<close> becomes one hyphen.\<close>

definition isNameChar :: "char \<Rightarrow> bool" where
  "isNameChar c = (isWordChar c \<or> c = CHR ''-'')"

function replaceNonNameRuns :: "string \<Rightarrow> string" where
  "replaceNonNameRuns [] = []"
| "replaceNonNameRuns (c # cs) =
     (if isNameChar c then c # replaceNonNameRuns cs
      else CHR ''-'' # replaceNonNameRuns (dropWhile (\<lambda>d. \<not> isNameChar d) cs))"
  by pat_completeness auto
termination
  by (relation "measure length") (auto simp: less_Suc_eq_le length_dropWhile_le)

text \<open>The common first step of both naming functions.\<close>

definition clean :: "string \<Rightarrow> string" where
  "clean v = trim (replaceNonNameRuns (stripLeadingNonLetters v))"

text \<open>
  \<^verbatim>\<open>url.replace(/[^/]*?{api-version}.*?\//g, "")\<close>. \<open>matchApiVersion s\<close> is the
  length of the match that starts at the head of \<open>s\<close>, if there is one: a lazy run of
  non-slash characters, the token, then lazily up to the first slash on the same line.
\<close>

fun untilSlash :: "string \<Rightarrow> nat option" where
  "untilSlash [] = None"
| "untilSlash (c # cs) =
     (if c = CHR ''/'' then Some 1
      else if isLineTerminator c then None
      else map_option Suc (untilSlash cs))"

fun matchApiVersion :: "string \<Rightarrow> nat option" where
  "matchApiVersion [] = None"
| "matchApiVersion (c # cs) =
     (let later = (if c \<noteq> CHR ''/'' then map_option Suc (matchApiVersion cs) else None) in
      if startsWith (c # cs) ''{api-version}'' then
        (case untilSlash (drop 13 (c # cs)) of Some n \<Rightarrow> Some (13 + n) | None \<Rightarrow> later)
      else later)"

fun removeApiVersion :: "string \<Rightarrow> string" where
  "removeApiVersion [] = []"
| "removeApiVersion (c # cs) =
     (case matchApiVersion (c # cs) of
        Some n \<Rightarrow> removeApiVersion (drop (n - 1) cs)
      | None \<Rightarrow> c # removeApiVersion cs)"

text \<open>\<^verbatim>\<open>s.replace(/{(.*?)}/g, "")\<close>: from an opening brace to the first closing brace on
  the same line. \<open>untilBrace s\<close> counts the characters up to and including that brace.\<close>

fun untilBrace :: "string \<Rightarrow> nat option" where
  "untilBrace [] = None"
| "untilBrace (c # cs) =
     (if c = CHR ''}'' then Some 1
      else if isLineTerminator c then None
      else map_option Suc (untilBrace cs))"

fun removePlaceholders :: "string \<Rightarrow> string" where
  "removePlaceholders [] = []"
| "removePlaceholders (c # cs) =
     (if c = CHR ''{'' then
        (case untilBrace cs of
           Some n \<Rightarrow> removePlaceholders (drop n cs)
         | None \<Rightarrow> c # removePlaceholders cs)
      else c # removePlaceholders cs)"

text \<open>\<^verbatim>\<open>s.replace(/\//g, "-")\<close>.\<close>

definition slashesToHyphens :: "string \<Rightarrow> string" where
  "slashesToHyphens s = map (\<lambda>c. if c = CHR ''/'' then CHR ''-'' else c) s"

subsection \<open>The imported \<^verbatim>\<open>camelCase\<close>\<close>

text \<open>
  \<^verbatim>\<open>camelCase\<close> is the default export of the package \<^verbatim>\<open>camelcase\<close>, a dependency
  that \<^verbatim>\<open>package.json\<close> pins at 5.3.1; it is called with no options. The functions
  below follow that release of the package, with its three regular expressions
  compiled by hand. Case mapping is that of ASCII.
\<close>

text \<open>The class \<^verbatim>\<open>[_.\- ]\<close>.\<close>

definition isSeparator :: "char \<Rightarrow> bool" where
  "isSeparator c = (c \<in> set ''_.- '')"

text \<open>
  The loop of \<^verbatim>\<open>preserveCamelCase\<close>: its state is the string, the index \<open>i\<close> and
  the flags \<^verbatim>\<open>isLastCharLower\<close>, \<^verbatim>\<open>isLastCharUpper\<close>, \<^verbatim>\<open>isLastLastCharUpper\<close>; the step
  is one pass through the body followed by the \<^verbatim>\<open>i++\<close> of the loop header. A hyphen is
  inserted before an upper-case letter that follows a lower-case one, and before the
  last of a run of upper-case letters that a lower-case letter follows.
\<close>

definition preserveCamelCaseStep ::
  "string \<times> nat \<times> bool \<times> bool \<times> bool \<Rightarrow> string \<times> nat \<times> bool \<times> bool \<times> bool" where
  "preserveCamelCaseStep st =
     (case st of (s, i, isLastCharLower, isLastCharUpper, isLastLastCharUpper) \<Rightarrow>
        (let character = s ! i in
         if isLastCharLower \<and> isLetter character \<and> toUpperChar character = character then
           (take i s @ ''-'' @ drop i s, i + 2, False, True, isLastCharUpper)
         else if isLastCharUpper \<and> isLastLastCharUpper \<and> isLetter character
                 \<and> toLowerChar character = character then
           (take (i - 1) s @ ''-'' @ drop (i - 1) s, i + 1, True, False, isLastCharUpper)
         else
           (s, i + 1,
            toLowerChar character = character \<and> toUpperChar character \<noteq> character,
            toUpperChar character = character \<and> toLowerChar character \<noteq> character,
            isLastCharUpper)))"

function preserveCamelCaseLoop :: "string \<times> nat \<times> bool \<times> bool \<times> bool \<Rightarrow> string" where
  "preserveCamelCaseLoop st =
     (if fst (snd st) < length (fst st) then preserveCamelCaseLoop (preserveCamelCaseStep st)
      else fst st)"
  by pat_completeness auto
termination
  by (relation "measure (\<lambda>(s, i, lo, up, up2). 2 * (length s - i) + (if up \<and> up2 then 1 else 0))")
     (auto simp: preserveCamelCaseStep_def Let_def)

declare preserveCamelCaseLoop.simps [simp del]

definition preserveCamelCase :: "string \<Rightarrow> string" where
  "preserveCamelCase s = preserveCamelCaseLoop (s, 0, False, False, False)"

text \<open>
  \<^verbatim>\<open>s.replace(/[_.\- ]+(\w|$)/g, (_, p1) => p1.toUpperCase())\<close>. At a separator, \<open>n\<close>
  more separators follow. The greedy run matches when the end of the string or a word
  character comes next. Otherwise the run gives back characters until the group can
  match an underscore of the run, the last one after its first character; with no such
  underscore nothing matches here.
\<close>

fun replaceSeparators :: "string \<Rightarrow> string" where
  "replaceSeparators [] = []"
| "replaceSeparators (c # cs) =
     (if isSeparator c then
        (let n = length (takeWhile isSeparator cs) in
         case drop n cs of
           [] \<Rightarrow> []
         | d # ds \<Rightarrow>
             if isWordChar d then toUpperChar d # replaceSeparators (drop (Suc n) cs)
             else if CHR ''_'' \<in> set (take n cs) then
               (let k = n - length (takeWhile (\<lambda>e. e \<noteq> CHR ''_'') (rev (take n cs))) in
                toUpperChar (CHR ''_'') # replaceSeparators (drop k cs))
             else c # replaceSeparators cs)
      else c # replaceSeparators cs)"

text \<open>
  \<^verbatim>\<open>s.replace(/\d+(\w|$)/g, m => m.toUpperCase())\<close>. At a digit, \<open>n\<close> more digits follow.
  The match is the run with the word character after it, or the run alone at the end
  of the string, or the run alone (its last digit taken by the group) when it has two
  digits or more.
\<close>

function replaceDigits :: "string \<Rightarrow> string" where
  "replaceDigits [] = []"
| "replaceDigits (c # cs) =
     (if isDigit c then
        (let n = length (takeWhile isDigit cs) in
         case drop n cs of
           [] \<Rightarrow> toUpperCase (c # cs)
         | d # ds \<Rightarrow>
             if isWordChar d then
               toUpperCase (c # take n cs @ [d]) @ replaceDigits (drop (Suc n) cs)
             else if n \<ge> 1 then toUpperCase (c # take n cs) @ replaceDigits (drop n cs)
             else c # replaceDigits cs)
      else c # replaceDigits cs)"
  by pat_completeness auto
termination
proof (relation "measure length", goal_cases)
  case (3 c cs n d ds)
  have "length (drop n cs) \<le> length cs" by simp
  then show ?case by simp
qed auto

definition camelCase :: "string \<Rightarrow> string" where
  "camelCase input0 =
     (let input = trim input0 in
      if length input = 0 then []
      else if length input = 1 then toLowerCase input
      else
        (let hasUpperCase = (input \<noteq> toLowerCase input);
             input = (if hasUpperCase then preserveCamelCase input else input)
         in replaceDigits (replaceSeparators (toLowerCase (dropWhile isSeparator input)))))"

section \<open>Identifier sanitizer\<close>

definition javascriptReservedWords :: "string list" where
  "javascriptReservedWords =
    [''break'', ''case'', ''catch'', ''class'', ''const'', ''continue'', ''debugger'',
     ''default'', ''delete'', ''do'', ''else'', ''export'', ''extends'', ''false'',
     ''finally'', ''for'', ''function'', ''if'', ''import'', ''in'', ''instanceof'',
     ''new'', ''null'', ''return'', ''super'', ''switch'', ''this'', ''throw'', ''true'',
     ''try'', ''typeof'', ''var'', ''void'', ''while'', ''with'', ''yield'', ''let'',
     ''await'', ''enum'', ''implements'', ''interface'', ''package'', ''private'',
     ''protected'', ''public'', ''static'', ''abstract'', ''boolean'', ''byte'', ''char'',
     ''double'', ''final'', ''float'', ''goto'', ''int'', ''long'', ''native'', ''short'',
     ''synchronized'', ''throws'', ''transient'', ''volatile'', ''arguments'', ''async'',
     ''eval'', ''get'', ''set'', ''null'', ''true'', ''false'', ''any'', ''boolean'',
     ''constructor'', ''declare'', ''module'', ''require'', ''number'', ''string'', ''of'']"

definition isReservedWord :: "string \<Rightarrow> bool" where
  "isReservedWord v = (v \<in> set javascriptReservedWords)"

text \<open>The alternatives of the anchored regular expression \<^verbatim>\<open>reservedWords\<close>.\<close>

definition reservedWords :: "string list" where
  "reservedWords =
    [''arguments'', ''break'', ''case'', ''catch'', ''class'', ''const'', ''continue'',
     ''debugger'', ''default'', ''delete'', ''do'', ''else'', ''enum'', ''eval'',
     ''export'', ''extends'', ''false'', ''finally'', ''for'', ''function'', ''if'',
     ''implements'', ''import'', ''in'', ''instanceof'', ''interface'', ''let'', ''new'',
     ''null'', ''package'', ''private'', ''protected'', ''public'', ''return'', ''static'',
     ''super'', ''switch'', ''this'', ''throw'', ''true'', ''try'', ''typeof'', ''var'',
     ''void'', ''while'', ''with'', ''yield'']"

definition getOperationName :: "string \<Rightarrow> string \<Rightarrow> string option \<Rightarrow> string" where
  "getOperationName url method operationId =
     (if truthy operationId then
        (let operationIdSplit = split (CHR ''/'') (the operationId);
             name = (if length operationIdSplit > 1 then last operationIdSplit
                     else the operationId);
             result = camelCase (clean name)
         in if isReservedWord result then
              (if length operationIdSplit > 1 then
                 camelCase (result @ ''-'' @ hd operationIdSplit)
               else camelCase (method @ ''-'' @ result))
            else result)
      else
        (let urlWithoutPlaceholders =
               slashesToHyphens (removePlaceholders (removeApiVersion url))
         in camelCase (method @ ''-'' @ urlWithoutPlaceholders)))"

definition getOperationId :: "string \<Rightarrow> string \<Rightarrow> string option \<Rightarrow> string" where
  "getOperationId url method operationId =
     (if truthy operationId then the operationId else method @ '':'' @ url)"

text \<open>\<^verbatim>\<open>camelCase(clean).replace(reservedWords, "_$1")\<close>: the expression is anchored at
  both ends, so it rewrites exactly the strings of the list.\<close>

definition getOperationParameterName :: "string \<Rightarrow> string" where
  "getOperationParameterName v =
     (let c = camelCase (clean v) in
      if c \<in> set reservedWords then ''_'' @ c else c)"

section \<open>Response classifier: results, errors, response header\<close>

definition asModel :: "operationResponse \<Rightarrow> linkModel" where
  "asModel r = LinkModel (type r) (base r) (template r) (link r)"

fun areEqual :: "linkModel \<Rightarrow> linkModel \<Rightarrow> bool" where
  "areEqual (LinkModel t1 b1 tp1 (Some la)) (LinkModel t2 b2 tp2 (Some lb)) =
     (let equal = (t1 = t2 \<and> b1 = b2 \<and> tp1 = tp2) in
      if equal then areEqual la lb else equal)"
| "areEqual (LinkModel t1 b1 tp1 la) (LinkModel t2 b2 tp2 lb) =
     (t1 = t2 \<and> b1 = b2 \<and> tp1 = tp2)"

definition getOperationResponseHeader :: "operationResponse list \<Rightarrow> string option" where
  "getOperationResponseHeader operationResponses =
     (case find (\<lambda>r. in' r = ''header'') operationResponses of
        Some header \<Rightarrow> Some (name header)
      | None \<Rightarrow> None)"

definition getOperationErrors :: "operationResponse list \<Rightarrow> operationError list" where
  "getOperationErrors operationResponses =
     map (\<lambda>response. \<lparr> error_code = code response,
                        error_description =
                          (if truthy (description response) then the (description response)
                           else []) \<rparr>)
       (filter (\<lambda>operationResponse.
                  code operationResponse \<ge> 300 \<and> truthy (description operationResponse))
          operationResponses)"

text \<open>The synthetic result pushed when no response qualifies.\<close>

definition voidResult :: operationResponse where
  "voidResult =
     \<lparr> name = [], export = ''generic'', type = ''void'', base = ''void'',
       template = None, link = None, description = Some [], deprecated = None,
       default' = None, isDefinition = False, isReadOnly = False, isRequired = False,
       isNullable = False, constraints = None, pattern = None, imports' = [],
       enum' = [], enums = [], properties = [],
       in' = ''response'', code = 200 \<rparr>"

text \<open>The test of the \<^verbatim>\<open>forEach\<close>: \<^verbatim>\<open>code && code !== 204 && code >= 200 && code < 300\<close>.\<close>

definition isSuccessCode :: "int \<Rightarrow> bool" where
  "isSuccessCode c = (c \<noteq> 0 \<and> c \<noteq> 204 \<and> c \<ge> 200 \<and> c < 300)"

definition getOperationResults :: "operationResponse list \<Rightarrow> operationResponse list" where
  "getOperationResults operationResponses =
     (let pushed = filter (\<lambda>operationResponse. isSuccessCode (code operationResponse))
                     operationResponses;
          operationResults = (if length pushed = 0 then pushed @ [voidResult] else pushed)
      in filterIndexed
           (\<lambda>operationResult index arr.
              findIndex (\<lambda>item. areEqual (asModel item) (asModel operationResult)) arr
                = int index)
           operationResults)"

section \<open>Content negotiator\<close>

definition isDefined :: "'a field \<Rightarrow> bool" where
  "isDefined v = (case v of Defined x \<Rightarrow> True | _ \<Rightarrow> False)"

definition BASIC_MEDIA_TYPES :: "string list" where
  "BASIC_MEDIA_TYPES =
    [''application/json-patch+json'', ''application/json'',
     ''application/x-www-form-urlencoded'', ''text/json'', ''text/plain'',
     ''multipart/form-data'', ''multipart/mixed'', ''multipart/related'',
     ''multipart/batch'']"

record content =
  ct_mediaType :: string
  ct_schema :: schemaObject

text \<open>\<^verbatim>\<open>content[mediaType]?.schema\<close>.\<close>

definition schemaAt :: "contentMap \<Rightarrow> string \<Rightarrow> schemaObject field" where
  "schemaAt content key =
     (case map_of content key of Some m \<Rightarrow> mt_schema m | None \<Rightarrow> Undefined)"

text \<open>
  The two \<^verbatim>\<open>if\<close> tests are truthiness tests on the media type found, a string or
  \<^verbatim>\<open>undefined\<close>. The schema of a media type that passed \<^verbatim>\<open>isDefined\<close> is read
  without a further check.
\<close>

definition makeContent :: "contentMap \<Rightarrow> string \<Rightarrow> content option" where
  "makeContent content key =
     (case schemaAt content key of
        Defined sch \<Rightarrow> Some \<lparr> ct_mediaType = key, ct_schema = sch \<rparr>
      | _ \<Rightarrow> None)"

definition getContent :: "contentMap \<Rightarrow> content option" where
  "getContent content =
     (let basicMediaTypeWithSchema =
            find (\<lambda>key. isDefined (schemaAt content key))
              (filter (\<lambda>key.
                         (let cleanMediaType = trim (hd (split (CHR '';'') key))
                          in cleanMediaType \<in> set BASIC_MEDIA_TYPES))
                 (map fst content))
      in if truthy basicMediaTypeWithSchema then
           makeContent content (the basicMediaTypeWithSchema)
         else
           (let firstMediaTypeWithSchema =
                  find (\<lambda>key. isDefined (schemaAt content key)) (map fst content)
            in if truthy firstMediaTypeWithSchema then
                 makeContent content (the firstMediaTypeWithSchema)
               else None))"

section \<open>Response classifier: one response\<close>

text \<open>\<^verbatim>\<open>/[0-9]+/g.test(value)\<close> holds when the string has a decimal digit somewhere.\<close>

definition getOperationResponseCode :: "string \<Rightarrow> int option" where
  "getOperationResponseCode v =
     (if v = ''default'' then Some 200
      else if (\<exists>c \<in> set v. isDigit c) then
        (case parseInt v of Some n \<Rightarrow> Some \<bar>n\<bar> | None \<Rightarrow> None)
      else None)"

text \<open>\<^verbatim>\<open>x || null\<close> on a string.\<close>

definition orNull :: "string option \<Rightarrow> string option" where
  "orNull x = (if truthy x then x else None)"

text \<open>\<^verbatim>\<open>schema.$ref?.startsWith(p)\<close>.\<close>

definition refStartsWith :: "schemaObject \<Rightarrow> string \<Rightarrow> bool" where
  "refStartsWith sch p =
     (case so_ref sch of Some r \<Rightarrow> startsWith r p | None \<Rightarrow> False)"

definition getOperationResponse ::
  "resolvers \<Rightarrow> document \<Rightarrow> responseObject \<Rightarrow> int \<Rightarrow> operationResponse" where
  "getOperationResponse lib openApi response responseCode =
     (let operationResponse =
            \<lparr> name = [], export = ''generic'', type = ''any'', base = ''any'',
              template = None, link = None,
              description = orNull (ro_description response), deprecated = None,
              default' = None, isDefinition = False, isReadOnly = False,
              isRequired = False, isNullable = False, constraints = None, pattern = None,
              imports' = [], enum' = [], enums = [], properties = [],
              in' = ''response'', code = responseCode \<rparr>;
          afterContent =
            (case ro_headers response of
               Some ((headerName, h) # hs) \<Rightarrow>
                 operationResponse\<lparr> in' := ''header'', name := headerName,
                                    type := ''string'', base := ''string'' \<rparr>
             | _ \<Rightarrow> operationResponse)
      in case ro_content response of
           None \<Rightarrow> afterContent
         | Some responseContent \<Rightarrow>
             (case getContent responseContent of
                None \<Rightarrow> afterContent
              | Some content0 \<Rightarrow>
                  (let sch = (if refStartsWith (ct_schema content0) ''#/components/responses/''
                              then getRefSchema lib openApi (ct_schema content0)
                              else ct_schema content0)
                   in if truthy (so_ref sch) then
                        (let m = getType lib (the (so_ref sch)) in
                         operationResponse\<lparr> export := ''reference'', type := type m,
                           base := base m, template := template m,
                           imports' := imports' operationResponse @ imports' m \<rparr>)
                      else
                        (let m = getModel lib openApi [] sch in
                         operationResponse\<lparr> export := export m, type := type m,
                           base := base m, template := template m, link := link m,
                           isReadOnly := isReadOnly m, isRequired := isRequired m,
                           isNullable := isNullable m, constraints := constraints m,
                           pattern := getPattern lib (pattern m),
                           imports' := imports' operationResponse @ imports' m,
                           enum' := enum' operationResponse @ enum' m,
                           enums := enums operationResponse @ enums m,
                           properties := properties operationResponse @ properties m \<rparr>))))"

text \<open>The comparator of the final sort.\<close>

definition byCode :: "operationResponse \<Rightarrow> operationResponse \<Rightarrow> int" where
  "byCode a b = (if code a < code b then - 1 else if code a > code b then 1 else 0)"

text \<open>One pass of the loop over the entries of \<^verbatim>\<open>responses\<close>;
  \<^verbatim>\<open>if (responseCode)\<close> rejects \<^verbatim>\<open>null\<close> and 0.\<close>

definition addResponse ::
  "resolvers \<Rightarrow> document \<Rightarrow> operationResponse list \<Rightarrow> string \<times> responseObject
     \<Rightarrow> operationResponse list" where
  "addResponse lib openApi operationResponses entry =
     (case entry of (code0, responseOrReference) \<Rightarrow>
        (let response = getRefResponse lib openApi responseOrReference;
             responseCode = getOperationResponseCode code0
         in case responseCode of
              None \<Rightarrow> operationResponses
            | Some rc \<Rightarrow>
                if rc \<noteq> 0 then
                  operationResponses @ [getOperationResponse lib openApi response rc]
                else operationResponses))"

definition getOperationResponses ::
  "resolvers \<Rightarrow> document \<Rightarrow> (string \<times> responseObject) list \<Rightarrow> operationResponse list" where
  "getOperationResponses lib openApi responses =
     array_sort byCode (foldl (addResponse lib openApi) [] responses)"

section \<open>Parameter classifier and request body\<close>

definition getOperationRequestBody ::
  "resolvers \<Rightarrow> document \<Rightarrow> requestBodyObject \<Rightarrow> operationParameter" where
  "getOperationRequestBody lib openApi body =
     (let requestBody =
            \<lparr> name = ''body'', export = ''interface'', type = ''any'', base = ''any'',
              template = None, link = None,
              description = orNull (rb_description body), deprecated = None,
              default' = None, isDefinition = False, isReadOnly = False,
              isRequired = (rb_required body = Some True), isNullable = False,
              constraints = None, pattern = None,
              imports' = [], enum' = [], enums = [], properties = [],
              in' = ''body'', prop' = ''body'', mediaType = None \<rparr>
      in case rb_content body of
           None \<Rightarrow> requestBody
         | Some bodyContent \<Rightarrow>
             (case getContent bodyContent of
                None \<Rightarrow> requestBody
              | Some content0 \<Rightarrow>
                  (let requestBody = requestBody\<lparr> mediaType := Some (ct_mediaType content0) \<rparr>;
                       requestBody =
                         (if ct_mediaType content0 = ''application/x-www-form-urlencoded''
                             \<or> ct_mediaType content0 = ''multipart/form-data''
                          then requestBody\<lparr> in' := ''formData'', name := ''formData'',
                                            prop' := ''formData'' \<rparr>
                          else requestBody);
                       sch = ct_schema content0
                   in if truthy (so_ref sch) then
                        (let m = getType lib (the (so_ref sch)) in
                         requestBody\<lparr> export := ''reference'', type := type m,
                           base := base m, template := template m,
                           imports' := imports' requestBody @ imports' m \<rparr>)
                      else
                        (let m = getModel lib openApi [] sch in
                         requestBody\<lparr> export := export m, type := type m,
                           base := base m, template := template m, link := link m,
                           isReadOnly := isReadOnly m,
                           isRequired := (isRequired requestBody \<or> isRequired m),
                           isNullable := (isNullable requestBody \<or> isNullable m),
                           constraints := constraints m,
                           pattern := getPattern lib (pattern m),
                           imports' := imports' requestBody @ imports' m,
                           enum' := enum' requestBody @ enum' m,
                           enums := enums requestBody @ enums m,
                           properties := properties requestBody @ properties m \<rparr>))))"

text \<open>
  \<^verbatim>\<open>"$ref" in schema\<close> is \<open>so_ref schema \<noteq> None\<close>. The second \<^verbatim>\<open>if (schema)\<close>, after
  \<^verbatim>\<open>getRef\<close>, always holds for a total \<^verbatim>\<open>getRef\<close>.
\<close>

definition getOperationParameter ::
  "resolvers \<Rightarrow> document \<Rightarrow> parameterObject \<Rightarrow> operationParameter" where
  "getOperationParameter lib openApi parameter =
     (let operationParameter =
            \<lparr> name = getOperationParameterName (po_name parameter),
              export = ''interface'', type = ''any'', base = ''any'',
              template = None, link = None,
              description = orNull (po_description parameter),
              deprecated = Some (po_deprecated parameter = Some True),
              default' = None, isDefinition = False, isReadOnly = False,
              isRequired = (po_required parameter = Some True), isNullable = False,
              constraints = None, pattern = None,
              imports' = [], enum' = [], enums = [], properties = [],
              in' = po_in parameter, prop' = po_name parameter, mediaType = None \<rparr>
      in if truthy (po_ref parameter) then
           (let definitionRef = getType lib (the (po_ref parameter)) in
            operationParameter\<lparr> export := ''reference'', type := type definitionRef,
              base := base definitionRef, template := template definitionRef,
              imports' := imports' operationParameter @ imports' definitionRef \<rparr>)
         else
           (case po_schema parameter of
              None \<Rightarrow> operationParameter
            | Some schema0 \<Rightarrow>
                (let sch = (if so_ref schema0 \<noteq> None
                               \<and> refStartsWith schema0 ''#/components/parameters/''
                            then getRefSchema lib openApi schema0 else schema0)
                 in if so_ref sch \<noteq> None then
                      (let m = getType lib (the (so_ref sch)) in
                       operationParameter\<lparr> export := ''reference'', type := type m,
                         base := base m, template := template m,
                         imports' := imports' operationParameter @ imports' m,
                         default' := getModelDefault lib sch \<rparr>)
                    else
                      (let m = getModel lib openApi [] sch in
                       operationParameter\<lparr> export := export m, type := type m,
                         base := base m, template := template m, link := link m,
                         isReadOnly := isReadOnly m,
                         isRequired := (isRequired operationParameter \<or> isRequired m),
                         isNullable := (isNullable operationParameter \<or> isNullable m),
                         constraints := constraints m,
                         pattern := getPattern lib (pattern m),
                         default' := default' m,
                         imports' := imports' operationParameter @ imports' m,
                         enum' := enum' operationParameter @ enum' m,
                         enums := enums operationParameter @ enums m,
                         properties := properties operationParameter @ properties m \<rparr>))))"

text \<open>One pass of the \<^verbatim>\<open>forEach\<close> body of \<^verbatim>\<open>getOperationParameters\<close>.\<close>

definition addParameter ::
  "resolvers \<Rightarrow> document \<Rightarrow> operationParameters \<Rightarrow> parameterObject \<Rightarrow> operationParameters" where
  "addParameter lib doc acc parameterOrReference =
     (let parameterDef = getRefParameter lib doc parameterOrReference;
          parameter = getOperationParameter lib doc parameterDef;
          acc' = acc\<lparr> parameters := parameters acc @ [parameter],
                       op_imports := op_imports acc @ imports' parameter \<rparr>
      in if prop' parameter \<noteq> ''api-version'' then
           (if in' parameter = ''path'' then
              acc'\<lparr> parametersPath := parametersPath acc @ [parameter] \<rparr>
            else if in' parameter = ''query'' then
              acc'\<lparr> parametersQuery := parametersQuery acc @ [parameter] \<rparr>
            else if in' parameter = ''formData'' then
              acc'\<lparr> parametersForm := parametersForm acc @ [parameter] \<rparr>
            else if in' parameter = ''cookie'' then
              acc'\<lparr> parametersCookie := parametersCookie acc @ [parameter] \<rparr>
            else if in' parameter = ''header'' then
              acc'\<lparr> parametersHeader := parametersHeader acc @ [parameter] \<rparr>
            else acc)
         else acc)"

definition getOperationParameters ::
  "resolvers \<Rightarrow> document \<Rightarrow> parameterObject list \<Rightarrow> operationParameters" where
  "getOperationParameters lib doc ps =
     foldl (addParameter lib doc)
       \<lparr> op_imports = [], parameters = [], parametersPath = [], parametersQuery = [],
         parametersForm = [], parametersCookie = [], parametersHeader = [],
         parametersBody = None \<rparr>
       ps"

section \<open>Operation builder\<close>

text \<open>\<^verbatim>\<open>p.isRequired && p.default === undefined\<close>.\<close>

definition needsValue :: "operationParameter \<Rightarrow> bool" where
  "needsValue p = (isRequired p \<and> default' p = None)"

definition sortByRequired :: "operationParameter \<Rightarrow> operationParameter \<Rightarrow> int" where
  "sortByRequired a b =
     (let aNeedsValue = needsValue a; bNeedsValue = needsValue b in
      if aNeedsValue \<and> \<not> bNeedsValue then - 1
      else if bNeedsValue \<and> \<not> aNeedsValue then 1
      else 0)"

definition getOperation ::
  "resolvers \<Rightarrow> document \<Rightarrow> string \<Rightarrow> string \<Rightarrow> operationObject \<Rightarrow> operationParameters
     \<Rightarrow> operation" where
  "getOperation lib openApi url method op pathParams =
     (let operationName = getOperationName url method (oo_operationId op);
          operation =
            \<lparr> op_imports = [],
              parameters = parameters pathParams,
              parametersPath = parametersPath pathParams,
              parametersQuery = parametersQuery pathParams,
              parametersForm = parametersForm pathParams,
              parametersCookie = parametersCookie pathParams,
              parametersHeader = parametersHeader pathParams,
              parametersBody = parametersBody pathParams,
              op_id = getOperationId url method (oo_operationId op),
              op_name = operationName,
              op_summary = orNull (oo_summary op),
              op_description = orNull (oo_description op),
              op_deprecated = (oo_deprecated op = Some True),
              op_method = toUpperCase method,
              op_path = url,
              op_errors = [], op_results = [], op_responseHeader = None \<rparr>;
          operation =
            (case oo_parameters op of
               None \<Rightarrow> operation
             | Some ps \<Rightarrow>
                 (let own = getOperationParameters lib openApi ps in
                  operation\<lparr>
                    op_imports := op_imports operation @ op_imports own,
                    parameters := parameters operation @ parameters own,
                    parametersPath := parametersPath operation @ parametersPath own,
                    parametersQuery := parametersQuery operation @ parametersQuery own,
                    parametersForm := parametersForm operation @ parametersForm own,
                    parametersHeader := parametersHeader operation @ parametersHeader own,
                    parametersCookie := parametersCookie operation @ parametersCookie own,
                    parametersBody := parametersBody own \<rparr>));
          operation =
            (case oo_requestBody op of
               None \<Rightarrow> operation
             | Some rb \<Rightarrow>
                 (let requestBodyDef = getRefRequestBody lib openApi rb;
                      requestBody = getOperationRequestBody lib openApi requestBodyDef
                  in operation\<lparr>
                       op_imports := op_imports operation @ imports' requestBody,
                       parameters := parameters operation @ [requestBody],
                       parametersBody := Some requestBody \<rparr>));
          operation =
            (case oo_responses op of
               None \<Rightarrow> operation
             | Some responses \<Rightarrow>
                 (let operationResponses = getOperationResponses lib openApi responses;
                      operationResults = getOperationResults operationResponses
                  in operation\<lparr>
                       op_errors := getOperationErrors operationResponses,
                       op_responseHeader := getOperationResponseHeader operationResults,
                       op_results := op_results operation @ operationResults,
                       op_imports := op_imports operation
                                       @ concat (map imports' operationResults) \<rparr>))
      in operation\<lparr> parameters := array_sort sortByRequired (parameters operation) \<rparr>)"

section \<open>Service aggregator\<close>

text \<open>The object literal \<^verbatim>\<open>operations\<close>, in the order \<^verbatim>\<open>Object.entries\<close> lists it.\<close>

definition methodEntries :: "pathItemObject \<Rightarrow> (string \<times> operationObject option) list" where
  "methodEntries pathObject =
     [(''get'', pi_get pathObject), (''post'', pi_post pathObject),
      (''put'', pi_put pathObject), (''delete'', pi_delete pathObject),
      (''patch'', pi_patch pathObject), (''options'', pi_options pathObject),
      (''head'', pi_head pathObject)]"

text \<open>The body of the inner loop, over (method, operation).\<close>

definition addOperation ::
  "resolvers \<Rightarrow> document \<Rightarrow> string \<Rightarrow> operationParameters \<Rightarrow> service
     \<Rightarrow> string \<times> operationObject option \<Rightarrow> service" where
  "addOperation lib doc path pathParams svc entry =
     (case entry of (method, opOpt) \<Rightarrow>
        (case opOpt of
           None \<Rightarrow> svc
         | Some op \<Rightarrow>
             (case oo_tags op of
                None \<Rightarrow> svc
              | Some tags \<Rightarrow>
                  if service_name svc \<notin> set tags then svc
                  else
                    (let operation = getOperation lib doc path method op pathParams in
                     svc\<lparr> service_operations := service_operations svc @ [operation],
                          service_imports := service_imports svc @ op_imports operation \<rparr>))))"

text \<open>The body of the outer loop, over (path, path item).\<close>

definition addPath ::
  "resolvers \<Rightarrow> document \<Rightarrow> service \<Rightarrow> string \<times> pathItemObject option \<Rightarrow> service" where
  "addPath lib doc svc entry =
     (case entry of (path, pathObjectOpt) \<Rightarrow>
        (case pathObjectOpt of
           None \<Rightarrow> svc
         | Some pathObject \<Rightarrow>
             (let pathParams =
                    getOperationParameters lib doc
                      (case pi_parameters pathObject of Some ps \<Rightarrow> ps | None \<Rightarrow> [])
              in foldl (addOperation lib doc path pathParams) svc (methodEntries pathObject))))"

definition getService :: "resolvers \<Rightarrow> document \<Rightarrow> tagObject \<Rightarrow> service" where
  "getService lib doc tag =
     foldl (addPath lib doc)
       \<lparr> service_name = tag_name tag, service_description = tag_description tag,
         service_operations = [], service_imports = [] \<rparr>
       (case doc_paths doc of Some ps \<Rightarrow> ps | None \<Rightarrow> [])"

definition getServices :: "resolvers \<Rightarrow> document \<Rightarrow> service list" where
  "getServices lib doc =
     map (getService lib doc) (case doc_tags doc of Some ts \<Rightarrow> ts | None \<Rightarrow> [])"

section \<open>Notions used to state the properties\<close>

text \<open>The positions of a list of responses that no earlier position is \<^verbatim>\<open>areEqual\<close> to.\<close>

definition firstOccurrences :: "operationResponse list \<Rightarrow> nat set" where
  "firstOccurrences xs = {i. \<forall>j<i. \<not> areEqual (asModel (xs ! j)) (asModel (xs ! i))}"

text \<open>The operations a document declares, as (path, path item, method, operation), in
  the order the two loops of \<^verbatim>\<open>getService\<close> visit them.\<close>

definition pathEntries ::
  "string \<times> pathItemObject option \<Rightarrow> (string \<times> pathItemObject \<times> string \<times> operationObject) list" where
  "pathEntries e =
     (case e of (path, pathObjectOpt) \<Rightarrow>
        (case pathObjectOpt of
           None \<Rightarrow> []
         | Some pathObject \<Rightarrow>
             concat (map (\<lambda>me. case snd me of None \<Rightarrow> []
                                 | Some op \<Rightarrow> [(path, pathObject, fst me, op)])
                       (methodEntries pathObject))))"

definition allOperations ::
  "document \<Rightarrow> (string \<times> pathItemObject \<times> string \<times> operationObject) list" where
  "allOperations doc =
     concat (map pathEntries (case doc_paths doc of Some ps \<Rightarrow> ps | None \<Rightarrow> []))"

text \<open>The operation built for a declared operation; the service plays no part in it.\<close>

definition buildOperation ::
  "resolvers \<Rightarrow> document \<Rightarrow> string \<times> pathItemObject \<times> string \<times> operationObject \<Rightarrow> operation" where
  "buildOperation lib doc e =
     (case e of (path, pathObject, method, op) \<Rightarrow>
        getOperation lib doc path method op
          (getOperationParameters lib doc
             (case pi_parameters pathObject of Some ps \<Rightarrow> ps | None \<Rightarrow> [])))"

definition hasTag :: "string \<Rightarrow> operationObject \<Rightarrow> bool" where
  "hasTag n op = (case oo_tags op of Some tags \<Rightarrow> n \<in> set tags | None \<Rightarrow> False)"

text \<open>What one method entry of a path item contributes to the service named \<open>n\<close>.\<close>

definition builtFor ::
  "resolvers \<Rightarrow> document \<Rightarrow> string \<Rightarrow> operationParameters \<Rightarrow> string
     \<Rightarrow> string \<times> operationObject option \<Rightarrow> operation list" where
  "builtFor lib doc path pp n me =
     (case snd me of
        None \<Rightarrow> []
      | Some op \<Rightarrow> if hasTag n op then [getOperation lib doc path (fst me) op pp] else [])"

definition methodNames :: "string list" where
  "methodNames = [''get'', ''post'', ''put'', ''delete'', ''patch'', ''options'', ''head'']"

definition entryKey ::
  "string \<times> pathItemObject \<times> string \<times> operationObject \<Rightarrow> string \<times> string" where
  "entryKey e = (case e of (path, pathObject, method, op) \<Rightarrow> (path, method))"

text \<open>The two tests of \<^verbatim>\<open>getContent\<close> on a media type key.\<close>

definition isBasicMediaType :: "string \<Rightarrow> bool" where
  "isBasicMediaType key = (trim (hd (split (CHR '';'') key)) \<in> set BASIC_MEDIA_TYPES)"

definition hasSchema :: "contentMap \<Rightarrow> string \<Rightarrow> bool" where
  "hasSchema content key = isDefined (schemaAt content key)"


text \<open>The five locations that \<^verbatim>\<open>getOperationParameters\<close> has a bucket for.\<close>

definition isBucket :: "string \<Rightarrow> bool" where
  "isBucket loc = (loc \<in> set [''path'', ''query'', ''formData'', ''cookie'', ''header''])"

text \<open>The class \<^verbatim>\<open>[A-Za-z0-9]\<close>.\<close>

definition isAlnum :: "char \<Rightarrow> bool" where
  "isAlnum c = (isLetter c \<or> isDigit c)"

section \<open>Example values\<close>

text \<open>A response descriptor with the given code, description, type and link, and the
  defaults of \<^verbatim>\<open>getOperationResponse\<close> elsewhere.\<close>

definition exampleResponse ::
  "int \<Rightarrow> string option \<Rightarrow> string \<Rightarrow> linkModel option \<Rightarrow> operationResponse" where
  "exampleResponse c d t l =
     \<lparr> name = [], export = ''generic'', type = t, base = ''string'',
       template = None, link = l, description = d, deprecated = None,
       default' = None, isDefinition = False, isReadOnly = False, isRequired = False,
       isNullable = False, constraints = None, pattern = None, imports' = [],
       enum' = [], enums = [], properties = [],
       in' = ''response'', code = c \<rparr>"

definition stringModel :: linkModel where
  "stringModel = LinkModel ''string'' ''string'' None None"

definition numberModel :: linkModel where
  "numberModel = LinkModel ''number'' ''number'' None None"

text \<open>
  Stand-ins for the imported resolvers: references resolve to the object itself, a
  referenced type is named by its reference, and an inline schema contributes its
  \<^verbatim>\<open>type\<close> and \<^verbatim>\<open>default\<close> keys.
\<close>

definition exampleModel :: "string \<Rightarrow> json option \<Rightarrow> model" where
  "exampleModel t d =
     \<lparr> name = [], export = ''generic'', type = t, base = t,
       template = None, link = None, description = None, deprecated = None,
       default' = d, isDefinition = False, isReadOnly = False, isRequired = False,
       isNullable = False, constraints = None, pattern = None, imports' = [],
       enum' = [], enums = [], properties = [] \<rparr>"

definition jsonKey :: "json \<Rightarrow> string \<Rightarrow> json option" where
  "jsonKey v k = (case v of JObj kvs \<Rightarrow> map_of kvs k | _ \<Rightarrow> None)"

definition exampleResolvers :: resolvers where
  "exampleResolvers =
     \<lparr> getRefParameter = (\<lambda>doc p. p),
       getRefRequestBody = (\<lambda>doc b. b),
       getRefResponse = (\<lambda>doc r. r),
       getRefSchema = (\<lambda>doc sch. sch),
       getType = (\<lambda>r. exampleModel r None),
       getModel = (\<lambda>doc n sch.
          exampleModel
            (case jsonKey (so_body sch) ''type'' of Some (JStr t) \<Rightarrow> t | _ \<Rightarrow> ''any'')
            (jsonKey (so_body sch) ''default'')),
       getModelDefault = (\<lambda>sch. jsonKey (so_body sch) ''default''),
       getPattern = (\<lambda>p. p) \<rparr>"

definition inlineSchema :: "(string \<times> json) list \<Rightarrow> schemaObject" where
  "inlineSchema kvs = \<lparr> so_ref = None, so_body = JObj kvs \<rparr>"

definition refSchema :: "string \<Rightarrow> schemaObject" where
  "refSchema r = \<lparr> so_ref = Some r, so_body = JObj [] \<rparr>"

definition exampleParameter :: "string \<Rightarrow> string \<Rightarrow> bool \<Rightarrow> (string \<times> json) list \<Rightarrow> parameterObject" where
  "exampleParameter n loc req kvs =
     \<lparr> po_ref = None, po_name = n, po_in = loc, po_description = None,
       po_deprecated = None, po_required = Some req,
       po_schema = Some (inlineSchema kvs) \<rparr>"

definition jsonContent :: "schemaObject \<Rightarrow> contentMap" where
  "jsonContent sch = [(''application/json'', \<lparr> mt_schema = Defined sch \<rparr>)]"

definition exampleResponseObject ::
  "string \<Rightarrow> contentMap option \<Rightarrow> (string \<times> json) list option \<Rightarrow> responseObject" where
  "exampleResponseObject d c h =
     \<lparr> ro_ref = None, ro_description = Some d, ro_content = c, ro_headers = h \<rparr>"

text \<open>The operation of the test fixture, given a second tag, own parameters and a body.\<close>

definition exampleOperation :: operationObject where
  "exampleOperation =
     \<lparr> oo_operationId = Some ''activity/get-thread-subscription-for-authenticated-user'',
       oo_summary = Some ''Get a thread subscription for the authenticated user'',
       oo_description = None,
       oo_deprecated = Some False,
       oo_tags = Some [''activity'', ''admin''],
       oo_parameters =
         Some [exampleParameter ''per_page'' ''query'' False [(''type'', JStr ''integer'')],
               exampleParameter ''api-version'' ''query'' True [(''type'', JStr ''string'')],
               exampleParameter ''all'' ''query'' True
                 [(''type'', JStr ''boolean''), (''default'', JBool False)],
               exampleParameter ''since'' ''query'' True [(''type'', JStr ''string'')]],
       oo_requestBody =
         Some \<lparr> rb_ref = None, rb_description = None, rb_required = Some False,
                rb_content = Some (jsonContent (refSchema ''#/components/schemas/patch'')) \<rparr>,
       oo_responses =
         Some [(''200'', exampleResponseObject ''Response''
                  (Some (jsonContent (refSchema ''#/components/schemas/thread-subscription'')))
                  None),
               (''304'', exampleResponseObject ''Not modified'' None None),
               (''401'', exampleResponseObject ''Requires authentication''
                  (Some (jsonContent (refSchema ''#/components/schemas/basic-error''))) None),
               (''403'', exampleResponseObject ''Forbidden''
                  (Some (jsonContent (refSchema ''#/components/schemas/basic-error''))) None)] \<rparr>"



definition untaggedOperation :: operationObject where
  "untaggedOperation = exampleOperation\<lparr> oo_operationId := None, oo_tags := None \<rparr>"

definition examplePathItem :: pathItemObject where
  "examplePathItem =
     \<lparr> pi_parameters =
         Some [exampleParameter ''thread_id'' ''path'' True [(''type'', JStr ''integer'')]],
       pi_get = Some exampleOperation, pi_post = None, pi_put = Some untaggedOperation,
       pi_delete = None, pi_patch = None, pi_options = None, pi_head = None \<rparr>"

definition exampleDocument :: document where
  "exampleDocument =
     \<lparr> doc_tags =
         Some [\<lparr> tag_name = ''activity'', tag_description = Some ''Activity APIs'' \<rparr>,
               \<lparr> tag_name = ''admin'', tag_description = None \<rparr>,
               \<lparr> tag_name = ''gists'', tag_description = None \<rparr>],
       doc_paths =
         Some [(''/notifications/threads/{thread_id}/subscription'', Some examplePathItem)],
       doc_components = JObj [] \<rparr>"

text \<open>A path and two tags of the example document.\<close>

definition examplePath :: string where
  "examplePath = ''/notifications/threads/{thread_id}/subscription''"

definition activityTag :: tagObject where
  "activityTag = \<lparr> tag_name = ''activity'', tag_description = Some ''Activity APIs'' \<rparr>"

definition adminTag :: tagObject where
  "adminTag = \<lparr> tag_name = ''admin'', tag_description = None \<rparr>"

section \<open>Facts about the JavaScript primitives\<close>

lemma findIndex_ge: "findIndex P xs \<ge> - 1"
  by (induction xs) (auto simp: Let_def)

lemma findIndex_eq:
  "findIndex P xs = int i \<longleftrightarrow> i < length xs \<and> P (xs ! i) \<and> (\<forall>j<i. \<not> P (xs ! j))"
proof (induction xs arbitrary: i)
  case Nil
  then show ?case by simp
next
  case (Cons x xs)
  show ?case
  proof (cases "P x")
    case True
    then show ?thesis by (cases i) auto
  next
    case False
    show ?thesis
    proof (cases i)
      case 0
      with False findIndex_ge[of P xs] show ?thesis by (auto simp: Let_def)
    next
      case (Suc k)
      have "findIndex P (x # xs) = int (Suc k) \<longleftrightarrow> findIndex P xs = int k"
        using False findIndex_ge[of P xs] by (auto simp: Let_def)
      also have "\<dots> \<longleftrightarrow> k < length xs \<and> P (xs ! k) \<and> (\<forall>j<k. \<not> P (xs ! j))"
        by (rule Cons.IH)
      also have "\<dots> \<longleftrightarrow> Suc k < length (x # xs) \<and> P ((x # xs) ! Suc k)
                        \<and> (\<forall>j<Suc k. \<not> P ((x # xs) ! j))"
        using False by (auto simp: less_Suc_eq_0_disj)
      finally show ?thesis using Suc by simp
    qed
  qed
qed

lemma filterIndexed_nths: "filterIndexed f arr = nths arr {i. f (arr ! i) i arr}"
proof -
  have "filter (\<lambda>(x, i). f x i arr) (zip arr [0..<length arr])
      = filter (\<lambda>p. snd p \<in> {i. f (arr ! i) i arr}) (zip arr [0..<length arr])"
    by (rule filter_cong) (auto simp: set_zip)
  then show ?thesis by (simp add: filterIndexed_def nths_def)
qed

lemma insertWith_skip:
  "\<forall>y \<in> set ns. cmp x y > 0 \<Longrightarrow> insertWith cmp x (ns @ os) = ns @ insertWith cmp x os"
  by (induction ns) auto

lemma insertWith_front:
  "(\<And>y. y \<in> set ys \<Longrightarrow> cmp x y \<le> 0) \<Longrightarrow> insertWith cmp x ys = x # ys"
  by (cases ys) auto

lemma array_sort_Cons: "array_sort cmp (x # xs) = insertWith cmp x (array_sort cmp xs)"
  by (simp add: array_sort_def)

lemma array_sort_sortByRequired:
  "array_sort sortByRequired xs = filter needsValue xs @ filter (\<lambda>p. \<not> needsValue p) xs"
proof (induction xs)
  case Nil
  then show ?case by (simp add: array_sort_def)
next
  case (Cons x xs)
  show ?case
  proof (cases "needsValue x")
    case True
    have "insertWith sortByRequired x (array_sort sortByRequired xs)
            = x # array_sort sortByRequired xs"
      by (rule insertWith_front) (simp add: sortByRequired_def True Let_def)
    with True Cons show ?thesis by (simp add: array_sort_Cons)
  next
    case False
    have skip: "\<forall>y \<in> set (filter needsValue xs). sortByRequired x y > 0"
      using False by (simp add: sortByRequired_def Let_def)
    have "insertWith sortByRequired x (filter (\<lambda>p. \<not> needsValue p) xs)
            = x # filter (\<lambda>p. \<not> needsValue p) xs"
      by (rule insertWith_front) (simp add: sortByRequired_def False Let_def)
    with False Cons skip
      insertWith_skip[of "filter needsValue xs" sortByRequired x
                         "filter (\<lambda>p. \<not> needsValue p) xs"]
    show ?thesis by (simp add: array_sort_Cons)
  qed
qed







section \<open>Facts about the identifier sanitizer\<close>

lemma toLowerChar_cases: "toLowerChar c = c \<or> toLowerChar c \<in> set lowerLetters"
proof (cases "map_of (zip upperLetters lowerLetters) c")
  case None
  then show ?thesis by (simp add: toLowerChar_def)
next
  case (Some l)
  then have "(c, l) \<in> set (zip upperLetters lowerLetters)" by (rule map_of_SomeD)
  then have "l \<in> set lowerLetters" by (rule set_zip_rightD)
  with Some show ?thesis by (simp add: toLowerChar_def)
qed

lemma toUpperChar_cases: "toUpperChar c = c \<or> toUpperChar c \<in> set upperLetters"
proof (cases "map_of (zip lowerLetters upperLetters) c")
  case None
  then show ?thesis by (simp add: toUpperChar_def)
next
  case (Some u)
  then have "(c, u) \<in> set (zip lowerLetters upperLetters)" by (rule map_of_SomeD)
  then have "u \<in> set upperLetters" by (rule set_zip_rightD)
  with Some show ?thesis by (simp add: toUpperChar_def)
qed

lemma isAlnum_toLowerChar: "isAlnum c \<Longrightarrow> isAlnum (toLowerChar c)"
  using toLowerChar_cases[of c] by (auto simp: isAlnum_def isLetter_def)

lemma isAlnum_toUpperChar: "isAlnum c \<Longrightarrow> isAlnum (toUpperChar c)"
  using toUpperChar_cases[of c] by (auto simp: isAlnum_def isLetter_def)

lemma isNameChar_toLowerChar: "isNameChar c \<Longrightarrow> isNameChar (toLowerChar c)"
  using toLowerChar_cases[of c] by (auto simp: isNameChar_def isWordChar_def isLetter_def)

lemma isLetter_toLowerChar: "isLetter c \<Longrightarrow> isLetter (toLowerChar c)"
  using toLowerChar_cases[of c] by (auto simp: isLetter_def)

lemma isLetter_isNameChar: "isLetter c \<Longrightarrow> isNameChar c"
  by (simp add: isNameChar_def isWordChar_def)

lemma isAlnum_isWordChar: "isAlnum c \<Longrightarrow> isWordChar c"
  by (auto simp: isAlnum_def isWordChar_def)

lemma isNameChar_not_separator: "isNameChar c \<Longrightarrow> \<not> isSeparator c \<Longrightarrow> isAlnum c"
  by (auto simp: isNameChar_def isWordChar_def isSeparator_def isAlnum_def)

lemma isWhiteSpace_not_name: "isWhiteSpace c \<Longrightarrow> \<not> isNameChar c"
  by (auto simp: isWhiteSpace_def isNameChar_def isWordChar_def isLetter_def isDigit_def
        lowerLetters_def upperLetters_def)

lemma isAlnum_no_hyphen: "isAlnum c \<Longrightarrow> c \<noteq> CHR ''-'' \<and> c \<noteq> CHR ''_''"
  by (auto simp: isAlnum_def isLetter_def isDigit_def lowerLetters_def upperLetters_def)


lemma trim_no_white: "\<forall>c \<in> set s. \<not> isWhiteSpace c \<Longrightarrow> trim s = s"
proof -
  assume a: "\<forall>c \<in> set s. \<not> isWhiteSpace c"
  then have 1: "dropWhile isWhiteSpace s = s" by (cases s) auto
  from a have "\<forall>c \<in> set (rev s). \<not> isWhiteSpace c" by simp
  then have 2: "dropWhile isWhiteSpace (rev s) = rev s" by (cases "rev s") auto
  show ?thesis by (simp add: trim_def 1 2)
qed

lemma replaceNonNameRuns_chars: "\<forall>c \<in> set (replaceNonNameRuns s). isNameChar c"
  by (induction s rule: replaceNonNameRuns.induct) (auto simp: isNameChar_def)

lemma replaceNonNameRuns_head:
  "s \<noteq> [] \<Longrightarrow> isLetter (hd s) \<Longrightarrow>
     replaceNonNameRuns s \<noteq> [] \<and> hd (replaceNonNameRuns s) = hd s"
  by (cases s) (auto simp: isLetter_isNameChar)

lemma replaceNonNameRuns_Nil: "replaceNonNameRuns s = [] \<longleftrightarrow> s = []"
  by (cases s) auto

lemma stripLeadingNonLetters_head:
  "stripLeadingNonLetters v = [] \<or> isLetter (hd (stripLeadingNonLetters v))"
  unfolding stripLeadingNonLetters_def
  using hd_dropWhile[of "\<lambda>c. \<not> isLetter c" v] by auto

lemma clean_eq: "clean v = replaceNonNameRuns (stripLeadingNonLetters v)"
  unfolding clean_def
  by (rule trim_no_white) (use replaceNonNameRuns_chars isWhiteSpace_not_name in blast)

lemma clean_chars: "\<forall>c \<in> set (clean v). isNameChar c"
  by (simp add: clean_eq replaceNonNameRuns_chars)

lemma clean_head: "clean v = [] \<or> isLetter (hd (clean v))"
proof (cases "stripLeadingNonLetters v = []")
  case True
  then show ?thesis by (simp add: clean_eq)
next
  case False
  with stripLeadingNonLetters_head[of v] have l: "isLetter (hd (stripLeadingNonLetters v))"
    by simp
  from replaceNonNameRuns_head[OF False l] l show ?thesis
    by (simp add: clean_eq)
qed

lemma preserveCamelCaseStep_chars:
  "set (fst (preserveCamelCaseStep st)) \<subseteq> insert (CHR ''-'') (set (fst st))"
proof -
  obtain s i lo up up2 where st: "st = (s, i, lo, up, up2)" by (cases st) auto
  have "set (take i s) \<subseteq> set s" "set (drop i s) \<subseteq> set s"
       "set (take (i - 1) s) \<subseteq> set s" "set (drop (i - 1) s) \<subseteq> set s"
    by (auto dest: in_set_takeD in_set_dropD)
  then show ?thesis
    unfolding st preserveCamelCaseStep_def Let_def by auto
qed

lemma preserveCamelCaseLoop_chars:
  "set (preserveCamelCaseLoop st) \<subseteq> insert (CHR ''-'') (set (fst st))"
proof (induction st rule: preserveCamelCaseLoop.induct)
  case (1 st)
  show ?case
  proof (cases "fst (snd st) < length (fst st)")
    case True
    then have "preserveCamelCaseLoop st = preserveCamelCaseLoop (preserveCamelCaseStep st)"
      by (subst preserveCamelCaseLoop.simps) simp
    moreover have "set (preserveCamelCaseLoop (preserveCamelCaseStep st))
        \<subseteq> insert (CHR ''-'') (set (fst (preserveCamelCaseStep st)))"
      using "1.IH"[OF True] .
    ultimately show ?thesis using preserveCamelCaseStep_chars[of st] by auto
  next
    case False
    then have "preserveCamelCaseLoop st = fst st"
      by (subst preserveCamelCaseLoop.simps) simp
    then show ?thesis by auto
  qed
qed

lemma preserveCamelCase_chars:
  "\<forall>c \<in> set s. isNameChar c \<Longrightarrow> \<forall>c \<in> set (preserveCamelCase s). isNameChar c"
  using preserveCamelCaseLoop_chars[of "(s, 0, False, False, False)"]
  by (auto simp: preserveCamelCase_def isNameChar_def)

lemma replaceSeparators_chars:
  "\<forall>c \<in> set s. isNameChar c \<Longrightarrow> \<forall>c \<in> set (replaceSeparators s). isAlnum c"
proof (induction s rule: replaceSeparators.induct)
  case 1
  then show ?case by simp
next
  case (2 c cs)
  show ?case
  proof (cases "isSeparator c")
    case False
    with 2 show ?thesis by (auto simp: isNameChar_not_separator)
  next
    case True
    define n where "n = length (takeWhile isSeparator cs)"
    have dw: "drop n cs = dropWhile isSeparator cs"
      unfolding n_def by (rule dropWhile_eq_drop[symmetric])
    show ?thesis
    proof (cases "drop n cs")
      case Nil
      with True show ?thesis by (simp add: n_def[symmetric])
    next
      case (Cons d ds)
      have "d \<in> set cs" using Cons by (metis in_set_dropD list.set_intros(1))
      moreover have "\<not> isSeparator d"
        using Cons dw hd_dropWhile[of isSeparator cs] by (metis list.distinct(1) list.sel(1))
      ultimately have alnum: "isAlnum d" using "2.prems" by (simp add: isNameChar_not_separator)
      then have w: "isWordChar d" by (rule isAlnum_isWordChar)
      have sub: "\<forall>c \<in> set (drop (Suc n) cs). isNameChar c"
        using "2.prems" by (auto dest: in_set_dropD)
      have ih: "\<forall>c \<in> set (replaceSeparators (drop (Suc n) cs)). isAlnum c"
        using "2.IH"(1)[OF True n_def Cons w sub] .
      have "replaceSeparators (c # cs) = toUpperChar d # replaceSeparators (drop (Suc n) cs)"
        using True Cons w by (simp add: n_def[symmetric])
      with ih alnum show ?thesis by (simp add: isAlnum_toUpperChar)
    qed
  qed
qed

lemma toUpperCase_chars: "\<forall>c \<in> set s. isAlnum c \<Longrightarrow> \<forall>c \<in> set (toUpperCase s). isAlnum c"
  by (auto simp: toUpperCase_def isAlnum_toUpperChar)

lemma replaceDigits_chars:
  "\<forall>c \<in> set s. isAlnum c \<Longrightarrow> \<forall>c \<in> set (replaceDigits s). isAlnum c"
proof (induction s rule: replaceDigits.induct)
  case 1
  then show ?case by simp
next
  case (2 c cs)
  have c: "isAlnum c" and cs: "\<forall>x \<in> set cs. isAlnum x" using "2.prems" by simp_all
  show ?case
  proof (cases "isDigit c")
    case False
    have "\<forall>x \<in> set (replaceDigits cs). isAlnum x"
      using "2.IH"(4)[OF False cs] .
    with False c show ?thesis by simp
  next
    case True
    define n where "n = length (takeWhile isDigit cs)"
    have tk: "\<forall>x \<in> set (take n cs). isAlnum x" using cs by (auto dest: in_set_takeD)
    show ?thesis
    proof (cases "drop n cs")
      case Nil
      have "\<forall>x \<in> set (toUpperCase (c # cs)). isAlnum x"
        using "2.prems" by (rule toUpperCase_chars)
      moreover have "replaceDigits (c # cs) = toUpperCase (c # cs)"
        using True Nil by (simp add: n_def Let_def)
      ultimately show ?thesis by simp
    next
      case (Cons d ds)
      have "d \<in> set (drop n cs)" using Cons by simp
      then have "d \<in> set cs" by (rule in_set_dropD)
      then have d: "isAlnum d" using cs by simp
      then have w: "isWordChar d" by (rule isAlnum_isWordChar)
      have sub: "\<forall>c \<in> set (drop (Suc n) cs). isAlnum c"
        using cs by (auto dest: in_set_dropD)
      have ih: "\<forall>c \<in> set (replaceDigits (drop (Suc n) cs)). isAlnum c"
        using "2.IH"(1)[OF True n_def Cons w sub] .
      have up: "\<forall>x \<in> set (toUpperCase (c # take n cs @ [d])). isAlnum x"
        using c tk d by (intro toUpperCase_chars) auto
      have "replaceDigits (c # cs)
          = toUpperCase (c # take n cs @ [d]) @ replaceDigits (drop (Suc n) cs)"
        using True Cons w by (simp add: n_def Let_def)
      with ih up show ?thesis by auto
    qed
  qed
qed

lemma camelCase_chars:
  assumes chars: "\<forall>c \<in> set s. isNameChar c" and head: "s = [] \<or> isLetter (hd s)"
  shows "\<forall>c \<in> set (camelCase s). isAlnum c"
proof -
  have t: "trim s = s"
    by (rule trim_no_white) (use chars isWhiteSpace_not_name in blast)
  show ?thesis
  proof (cases "length s \<le> 1")
    case True
    then consider "s = []" | c where "s = [c]"
      by (cases s) (auto simp: le_Suc_eq)
    then show ?thesis
    proof cases
      case 1
      then show ?thesis by (simp add: camelCase_def trim_def)
    next
      case 2
      with head have "isLetter c" by simp
      then have "isAlnum (toLowerChar c)" by (simp add: isAlnum_def isLetter_toLowerChar)
      with 2 t show ?thesis by (simp add: camelCase_def toLowerCase_def)
    qed
  next
    case False
    define p where "p = (if s \<noteq> toLowerCase s then preserveCamelCase s else s)"
    have p: "\<forall>c \<in> set p. isNameChar c"
      unfolding p_def using chars preserveCamelCase_chars[OF chars] by auto
    then have "\<forall>c \<in> set (dropWhile isSeparator p). isNameChar c"
      by (auto dest: set_dropWhileD)
    then have "\<forall>c \<in> set (toLowerCase (dropWhile isSeparator p)). isNameChar c"
      by (auto simp: toLowerCase_def isNameChar_toLowerChar)
    then have "\<forall>c \<in> set (replaceSeparators (toLowerCase (dropWhile isSeparator p))). isAlnum c"
      by (rule replaceSeparators_chars)
    then have "\<forall>c \<in> set (replaceDigits (replaceSeparators (toLowerCase (dropWhile isSeparator p)))).
                 isAlnum c"
      by (rule replaceDigits_chars)
    moreover have "camelCase s
        = replaceDigits (replaceSeparators (toLowerCase (dropWhile isSeparator p)))"
      using False t by (auto simp: camelCase_def Let_def p_def)
    ultimately show ?thesis by simp
  qed
qed

lemma camelCase_clean_chars: "\<forall>c \<in> set (camelCase (clean v)). isAlnum c"
  by (rule camelCase_chars[OF clean_chars clean_head])

section \<open>Facts about the content negotiator\<close>

lemma find_filter: "find P (filter Q xs) = find (\<lambda>x. Q x \<and> P x) xs"
  by (induction xs) auto

lemma find_Some_in: "find P xs = Some x \<Longrightarrow> x \<in> set xs \<and> P x"
  by (induction xs) (auto split: if_splits)

lemma makeContent_defined:
  "hasSchema content key \<Longrightarrow> makeContent content key \<noteq> None
     \<and> ct_mediaType (the (makeContent content key)) = key
     \<and> schemaAt content key = Defined (ct_schema (the (makeContent content key)))"
  by (cases "schemaAt content key") (auto simp: hasSchema_def isDefined_def makeContent_def)

lemma getContent_chosen:
  assumes "[] \<notin> fst ` set content"
  shows "getContent content =
     (case (case find (\<lambda>key. isBasicMediaType key \<and> hasSchema content key) (map fst content) of
              Some key \<Rightarrow> Some key
            | None \<Rightarrow> find (hasSchema content) (map fst content)) of
        Some key \<Rightarrow> makeContent content key
      | None \<Rightarrow> None)"
proof -
  let ?keys = "map fst content"
  let ?basic = "find (\<lambda>key. isBasicMediaType key \<and> hasSchema content key) ?keys"
  let ?first = "find (hasSchema content) ?keys"
  have ne: "key \<noteq> []" if "key \<in> set ?keys" for key
  proof
    assume "key = []"
    with that have "[] \<in> fst ` set content" by simp
    with assms show False by simp
  qed
  have tb: "truthy ?basic \<longleftrightarrow> ?basic \<noteq> None"
    using ne find_Some_in[of "\<lambda>key. isBasicMediaType key \<and> hasSchema content key" ?keys]
    by (cases ?basic) (auto simp: truthy_def)
  have tf: "truthy ?first \<longleftrightarrow> ?first \<noteq> None"
    using ne find_Some_in[of "hasSchema content" ?keys]
    by (cases ?first) (auto simp: truthy_def)
  have "getContent content =
          (if truthy ?basic then makeContent content (the ?basic)
           else if truthy ?first then makeContent content (the ?first) else None)"
  proof -
    have f1: "(\<lambda>key. isDefined (schemaAt content key)) = hasSchema content"
      by (rule ext) (simp add: hasSchema_def)
    have f2: "(\<lambda>key. trim (hd (split (CHR '';'') key)) \<in> set BASIC_MEDIA_TYPES
                     \<and> isDefined (schemaAt content key))
              = (\<lambda>key. isBasicMediaType key \<and> hasSchema content key)"
      by (rule ext) (simp add: hasSchema_def isBasicMediaType_def)
    have f3: "(\<lambda>key. trim (hd (split (CHR '';'') key)) \<in> set BASIC_MEDIA_TYPES
                     \<and> hasSchema content key)
              = (\<lambda>key. isBasicMediaType key \<and> hasSchema content key)"
      by (rule ext) (simp add: isBasicMediaType_def)
    show ?thesis
      by (simp only: getContent_def Let_def find_filter f1 f2 f3)
  qed
  then show ?thesis
    unfolding tb tf by (cases ?basic; cases ?first) auto
qed

lemma getContent_None_iff:
  assumes "[] \<notin> fst ` set content"
  shows "getContent content = None \<longleftrightarrow> (\<forall>key \<in> fst ` set content. \<not> hasSchema content key)"
proof -
  let ?keys = "map fst content"
  let ?basic = "find (\<lambda>key. isBasicMediaType key \<and> hasSchema content key) ?keys"
  let ?first = "find (hasSchema content) ?keys"
  show ?thesis
  proof (cases ?first)
    case None
    then have no: "\<forall>key \<in> set ?keys. \<not> hasSchema content key"
      by (simp add: find_None_iff)
    then have "?basic = None" by (simp add: find_None_iff)
    with None no show ?thesis by (simp add: getContent_chosen[OF assms])
  next
    case (Some key)
    then have k: "key \<in> set ?keys" "hasSchema content key"
      using find_Some_in[of "hasSchema content" ?keys key] by auto
    have "getContent content \<noteq> None"
    proof (cases ?basic)
      case None
      with Some makeContent_defined[OF k(2)] show ?thesis
        by (simp add: getContent_chosen[OF assms])
    next
      case (Some b)
      then have "hasSchema content b"
        using find_Some_in[of "\<lambda>key. isBasicMediaType key \<and> hasSchema content key" ?keys b]
        by auto
      with Some makeContent_defined[of content b] show ?thesis
        by (simp add: getContent_chosen[OF assms])
    qed
    with k show ?thesis by auto
  qed
qed

section \<open>Facts about the response classifier\<close>

lemma areEqual_refl: "areEqual a a"
proof (induction a)
  case (LinkModel t b tp l)
  then show ?case by (cases l) (auto simp: Let_def)
qed

lemma areEqual_unfold:
  "areEqual a b \<longleftrightarrow>
     l_type a = l_type b \<and> l_base a = l_base b \<and> l_template a = l_template b
     \<and> (case (l_link a, l_link b) of (Some x, Some y) \<Rightarrow> areEqual x y | _ \<Rightarrow> True)"
  by (cases a; cases b; cases "l_link a"; cases "l_link b") (auto simp: Let_def)

lemma dedup_nths:
  "filterIndexed (\<lambda>operationResult index arr.
      findIndex (\<lambda>item. areEqual (asModel item) (asModel operationResult)) arr = int index) xs
   = nths xs (firstOccurrences xs)"
proof -
  have "nths xs {i. findIndex (\<lambda>item. areEqual (asModel item) (asModel (xs ! i))) xs = int i}
      = nths xs (firstOccurrences xs)"
    unfolding nths_def firstOccurrences_def
    by (rule arg_cong[where f = "map fst"], rule filter_cong)
       (auto simp: set_zip findIndex_eq areEqual_refl)
  then show ?thesis by (simp add: filterIndexed_nths)
qed

lemma getOperationResults_nths:
  "getOperationResults rs =
     (let pushed = filter (\<lambda>r. isSuccessCode (code r)) rs;
          candidates = (if pushed = [] then [voidResult] else pushed)
      in nths candidates (firstOccurrences candidates))"
  by (simp add: getOperationResults_def Let_def dedup_nths)

lemma nths_first_kept: "xs \<noteq> [] \<Longrightarrow> 0 \<in> A \<Longrightarrow> nths xs A \<noteq> []"
  by (cases xs) (auto simp: nths_Cons)

lemma zero_firstOccurrences: "0 \<in> firstOccurrences xs"
  by (simp add: firstOccurrences_def)

lemma getOperationResults_nonempty: "getOperationResults rs \<noteq> []"
  by (simp add: getOperationResults_nths Let_def nths_first_kept zero_firstOccurrences)

lemma nths_two:
  "nths [a, b] A = (if 0 \<in> A then [a] else []) @ (if Suc 0 \<in> A then [b] else [])"
  by (simp add: nths_Cons)

lemma nths_three:
  "nths [a, b, c] A =
     (if 0 \<in> A then [a] else []) @ (if Suc 0 \<in> A then [b] else [])
     @ (if Suc (Suc 0) \<in> A then [c] else [])"
  by (simp add: nths_Cons)




section \<open>Facts about the operation builder\<close>

lemma getOperation_results:
  "op_results (getOperation lib doc url m op pp) =
     (case oo_responses op of None \<Rightarrow> []
      | Some rs \<Rightarrow> getOperationResults (getOperationResponses lib doc rs))"
  by (simp add: getOperation_def Let_def split: option.splits)


lemma getOperation_parameters:
  "parameters (getOperation lib doc url m op pp) =
     array_sort sortByRequired
       (parameters pp
        @ (case oo_parameters op of None \<Rightarrow> []
           | Some ps \<Rightarrow> parameters (getOperationParameters lib doc ps))
        @ (case oo_requestBody op of None \<Rightarrow> []
           | Some rb \<Rightarrow> [getOperationRequestBody lib doc (getRefRequestBody lib doc rb)]))"
  by (simp add: getOperation_def Let_def split: option.splits)

lemma getOperation_path: "op_path (getOperation lib doc url m op pp) = url"
  by (simp add: getOperation_def Let_def split: option.splits)

lemma getOperation_method: "op_method (getOperation lib doc url m op pp) = toUpperCase m"
  by (simp add: getOperation_def Let_def split: option.splits)

lemma addParameter_parameters:
  "parameters (addParameter lib doc acc q) =
     parameters acc
     @ (let p = getOperationParameter lib doc (getRefParameter lib doc q) in
        if prop' p \<noteq> ''api-version'' \<and> isBucket (in' p) then [p] else [])"
  by (simp add: addParameter_def Let_def isBucket_def)

lemma foldl_addParameter_parameters:
  "parameters (foldl (addParameter lib doc) acc ps) =
     parameters acc
     @ filter (\<lambda>p. prop' p \<noteq> ''api-version'' \<and> isBucket (in' p))
         (map (\<lambda>q. getOperationParameter lib doc (getRefParameter lib doc q)) ps)"
  by (induction ps arbitrary: acc) (simp_all add: addParameter_parameters Let_def)

lemma getOperationParameters_parameters:
  "parameters (getOperationParameters lib doc ps) =
     filter (\<lambda>p. prop' p \<noteq> ''api-version'' \<and> isBucket (in' p))
       (map (\<lambda>q. getOperationParameter lib doc (getRefParameter lib doc q)) ps)"
  by (simp add: getOperationParameters_def foldl_addParameter_parameters)

lemma getOperationParameter_name:
  "name (getOperationParameter lib doc q) = getOperationParameterName (po_name q)"
  by (simp add: getOperationParameter_def Let_def split: option.splits)

lemma getOperationParameter_prop: "prop' (getOperationParameter lib doc q) = po_name q"
  by (simp add: getOperationParameter_def Let_def split: option.splits)

lemma getOperationParameterName_no_hyphen: "CHR ''-'' \<notin> set (getOperationParameterName v)"
  using camelCase_clean_chars[of v] isAlnum_no_hyphen
  by (auto simp: getOperationParameterName_def Let_def)

lemma getOperationParameterName_not_api_version:
  "getOperationParameterName v \<noteq> ''api-version''"
proof
  assume "getOperationParameterName v = ''api-version''"
  then have "CHR ''-'' \<in> set (getOperationParameterName v)" by simp
  with getOperationParameterName_no_hyphen show False by blast
qed

lemma getOperationRequestBody_prop:
  "prop' (getOperationRequestBody lib doc b) \<in> {''body'', ''formData''}"
  "name (getOperationRequestBody lib doc b) \<in> {''body'', ''formData''}"
  by (simp_all add: getOperationRequestBody_def Let_def split: option.splits)

lemma getOperationParameters_no_api_version:
  "p \<in> set (parameters (getOperationParameters lib doc ps)) \<Longrightarrow>
     prop' p \<noteq> ''api-version'' \<and> name p \<noteq> ''api-version''"
  by (auto simp: getOperationParameters_parameters getOperationParameter_name
        getOperationParameterName_not_api_version)

section \<open>Facts about the service aggregator\<close>

lemma addOperation_name: "service_name (addOperation lib doc path pp svc me) = service_name svc"
  by (cases me) (simp add: addOperation_def Let_def split: option.splits)

lemma addOperation_operations:
  "service_operations (addOperation lib doc path pp svc me) =
     service_operations svc @ builtFor lib doc path pp (service_name svc) me"
  by (cases me) (simp add: addOperation_def builtFor_def hasTag_def Let_def split: option.splits)

lemma foldl_addOperation:
  "service_name (foldl (addOperation lib doc path pp) svc mes) = service_name svc
   \<and> service_operations (foldl (addOperation lib doc path pp) svc mes) =
       service_operations svc @ concat (map (builtFor lib doc path pp (service_name svc)) mes)"
proof (induction mes arbitrary: svc)
  case Nil
  then show ?case by simp
next
  case (Cons me mes)
  have n: "service_name (addOperation lib doc path pp svc me) = service_name svc"
    by (rule addOperation_name)
  from Cons.IH[of "addOperation lib doc path pp svc me"] show ?case
    unfolding n by (simp add: addOperation_operations)
qed

lemma builtFor_entries:
  assumes "pp = getOperationParameters lib doc
                  (case pi_parameters po of Some ps \<Rightarrow> ps | None \<Rightarrow> [])"
  shows "concat (map (builtFor lib doc path pp n) mes)
       = map (buildOperation lib doc)
           (filter (\<lambda>(path, pathObject, method, op). hasTag n op)
              (concat (map (\<lambda>me. case snd me of None \<Rightarrow> []
                              | Some op \<Rightarrow> [(path, po, fst me, op)]) mes)))"
  by (induction mes) (auto simp: builtFor_def buildOperation_def assms split: option.splits)

lemma addPath_service:
  "service_name (addPath lib doc svc e) = service_name svc
   \<and> service_operations (addPath lib doc svc e) =
       service_operations svc
       @ map (buildOperation lib doc)
           (filter (\<lambda>(path, pathObject, method, op). hasTag (service_name svc) op)
              (pathEntries e))"
proof (cases e)
  case (Pair path poOpt)
  show ?thesis
  proof (cases poOpt)
    case None
    with Pair show ?thesis by (simp add: addPath_def pathEntries_def)
  next
    case (Some po)
    define pp where "pp = getOperationParameters lib doc
                            (case pi_parameters po of Some ps \<Rightarrow> ps | None \<Rightarrow> [])"
    have a: "addPath lib doc svc e = foldl (addOperation lib doc path pp) svc (methodEntries po)"
      by (simp add: Pair Some addPath_def Let_def pp_def)
    have p: "pathEntries e
           = concat (map (\<lambda>me. case snd me of None \<Rightarrow> []
                              | Some op \<Rightarrow> [(path, po, fst me, op)]) (methodEntries po))"
      by (simp add: Pair Some pathEntries_def)
    show ?thesis
      unfolding a p
      using foldl_addOperation[of lib doc path pp svc "methodEntries po"]
        builtFor_entries[OF pp_def, of path "service_name svc" "methodEntries po"]
      by simp
  qed
qed

lemma foldl_addPath:
  "service_name (foldl (addPath lib doc) svc es) = service_name svc
   \<and> service_operations (foldl (addPath lib doc) svc es) =
       service_operations svc
       @ map (buildOperation lib doc)
           (filter (\<lambda>(path, pathObject, method, op). hasTag (service_name svc) op)
              (concat (map pathEntries es)))"
proof (induction es arbitrary: svc)
  case Nil
  then show ?case by simp
next
  case (Cons e es)
  have n: "service_name (addPath lib doc svc e) = service_name svc"
    using addPath_service[of lib doc svc e] by simp
  from Cons.IH[of "addPath lib doc svc e"] addPath_service[of lib doc svc e] show ?case
    unfolding n by simp
qed

lemma getService_operations:
  "service_operations (getService lib doc tag) =
     map (buildOperation lib doc)
       (filter (\<lambda>(path, pathObject, method, op). hasTag (tag_name tag) op) (allOperations doc))"
  using foldl_addPath[of lib doc
      "\<lparr> service_name = tag_name tag, service_description = tag_description tag,
         service_operations = [], service_imports = [] \<rparr>"
      "case doc_paths doc of Some ps \<Rightarrow> ps | None \<Rightarrow> []"]
  by (simp add: getService_def allOperations_def)

lemma getService_name: "service_name (getService lib doc tag) = tag_name tag"
  using foldl_addPath[of lib doc
      "\<lparr> service_name = tag_name tag, service_description = tag_description tag,
         service_operations = [], service_imports = [] \<rparr>"
      "case doc_paths doc of Some ps \<Rightarrow> ps | None \<Rightarrow> []"]
  by (simp add: getService_def)

lemma methodNames_upper_inj:
  "\<forall>a \<in> set methodNames. \<forall>b \<in> set methodNames. toUpperCase a = toUpperCase b \<longrightarrow> a = b"
  by code_simp

lemma methodEntries_names: "map fst (methodEntries po) = methodNames"
  by (simp add: methodEntries_def methodNames_def)

lemma distinct_methodNames: "distinct methodNames"
  by (simp add: methodNames_def)

lemma entries_keys:
  "map entryKey (concat (map (\<lambda>me. case snd me of None \<Rightarrow> []
                              | Some op \<Rightarrow> [(path, po, fst me, op)]) mes))
   = map (\<lambda>m. (path, m)) (map fst (filter (\<lambda>me. snd me \<noteq> None) mes))"
  by (induction mes) (auto simp: entryKey_def split: option.splits)

lemma pathEntries_keys:
  "map entryKey (pathEntries (path, Some po))
   = map (\<lambda>m. (path, m)) (map fst (filter (\<lambda>me. snd me \<noteq> None) (methodEntries po)))"
  by (simp add: pathEntries_def entries_keys)

lemma pathEntries_None: "pathEntries (path, None) = []"
  by (simp add: pathEntries_def)

lemma distinct_pathEntries: "distinct (map entryKey (pathEntries pe))"
proof (cases pe)
  case (Pair path poOpt)
  show ?thesis
  proof (cases poOpt)
    case None
    with Pair show ?thesis by (simp add: pathEntries_None)
  next
    case (Some po)
    have "distinct (map fst (filter (\<lambda>me. snd me \<noteq> None) (methodEntries po)))"
      using distinct_methodNames methodEntries_names[of po]
      by (metis distinct_map_filter)
    moreover have "inj_on (\<lambda>m. (path, m))
                     (set (map fst (filter (\<lambda>me. snd me \<noteq> None) (methodEntries po))))"
      by (rule inj_onI) simp
    ultimately have "distinct (map (\<lambda>m. (path, m))
                 (map fst (filter (\<lambda>me. snd me \<noteq> None) (methodEntries po))))"
      by (simp only: distinct_map simp_thms)
    with Pair Some show ?thesis by (simp only: pathEntries_keys)
  qed
qed

lemma pathEntries_fst: "e \<in> set (pathEntries pe) \<Longrightarrow> fst (entryKey e) = fst pe"
  by (cases pe; cases "snd pe") (auto simp: pathEntries_def entryKey_def split: option.splits)

lemma pathEntries_method:
  "e \<in> set (pathEntries pe) \<Longrightarrow> snd (entryKey e) \<in> set methodNames"
proof (cases pe)
  case (Pair path poOpt)
  assume e: "e \<in> set (pathEntries pe)"
  show ?thesis
  proof (cases poOpt)
    case None
    with Pair e show ?thesis by (simp add: pathEntries_None)
  next
    case (Some po)
    from e have "entryKey e \<in> set (map entryKey (pathEntries pe))" by simp
    then have "snd (entryKey e) \<in> set (map fst (methodEntries po))"
      unfolding Pair Some pathEntries_keys by force
    then show ?thesis by (simp only: methodEntries_names)
  qed
qed

lemma distinct_paths_entries:
  "distinct (map fst es) \<Longrightarrow> distinct (map entryKey (concat (map pathEntries es)))"
proof (induction es)
  case Nil
  then show ?case by simp
next
  case (Cons pe es)
  have d: "distinct (map entryKey (concat (map pathEntries es)))"
    using Cons by simp
  have disj: "set (map entryKey (pathEntries pe))
                \<inter> set (map entryKey (concat (map pathEntries es))) = {}"
  proof (rule ccontr)
    assume "\<not> ?thesis"
    then obtain k where k1: "k \<in> set (map entryKey (pathEntries pe))"
      and k2: "k \<in> set (map entryKey (concat (map pathEntries es)))"
      by blast
    from k1 obtain e where "e \<in> set (pathEntries pe)" "k = entryKey e" by auto
    then have f1: "fst k = fst pe" by (simp add: pathEntries_fst)
    from k2 obtain pe' e' where "pe' \<in> set es" "e' \<in> set (pathEntries pe')" "k = entryKey e'"
      by auto
    then have "fst k = fst pe'" "fst pe' \<in> set (map fst es)"
      by (simp_all add: pathEntries_fst)
    with f1 have "fst pe \<in> set (map fst es)" by simp
    with Cons.prems show False by simp
  qed
  show ?case
    using d disj distinct_pathEntries[of pe] by simp
qed

lemma allOperations_distinct:
  "distinct (map fst (case doc_paths doc of Some ps \<Rightarrow> ps | None \<Rightarrow> [])) \<Longrightarrow>
     distinct (map entryKey (allOperations doc))"
  unfolding allOperations_def by (rule distinct_paths_entries)

lemma allOperations_method:
  "e \<in> set (allOperations doc) \<Longrightarrow> snd (entryKey e) \<in> set methodNames"
  unfolding allOperations_def by (auto dest: pathEntries_method)

lemma filter_same_key:
  "distinct (map f xs) \<Longrightarrow> x \<in> set xs \<Longrightarrow> filter (\<lambda>y. f y = f x) xs = [x]"
proof (induction xs)
  case Nil
  then show ?case by simp
next
  case (Cons a xs)
  show ?case
  proof (cases "a = x")
    case True
    from Cons.prems(1) True have "f x \<notin> f ` set xs" by simp
    then have "\<forall>y \<in> set xs. f y \<noteq> f x" by (metis imageI)
    then have "filter (\<lambda>y. f y = f x) xs = []"
      by (simp add: filter_empty_conv)
    with True show ?thesis by simp
  next
    case False
    with Cons.prems have x: "x \<in> set xs" by simp
    then have "f a \<noteq> f x" using Cons.prems(1) by auto
    with Cons.IH x Cons.prems(1) show ?thesis by simp
  qed
qed

lemma buildOperation_key:
  "op_path (buildOperation lib doc e) = fst (entryKey e)"
  "op_method (buildOperation lib doc e) = toUpperCase (snd (entryKey e))"
  by (cases e; simp add: buildOperation_def entryKey_def getOperation_path getOperation_method)+

lemma service_operations_at:
  assumes d: "distinct (map fst (case doc_paths doc of Some ps \<Rightarrow> ps | None \<Rightarrow> []))"
    and e: "(path, pathObject, method, op) \<in> set (allOperations doc)"
  shows "filter (\<lambda>b. op_path b = path \<and> op_method b = toUpperCase method)
           (service_operations (getService lib doc tag))
         = (if hasTag (tag_name tag) op
            then [buildOperation lib doc (path, pathObject, method, op)] else [])"
proof -
  let ?e = "(path, pathObject, method, op)"
  let ?T = "\<lambda>(path, pathObject, method, op). hasTag (tag_name tag) op"
  have m: "method \<in> set methodNames"
    using allOperations_method[OF e] by (simp add: entryKey_def)
  have same: "(op_path (buildOperation lib doc x) = path
                \<and> op_method (buildOperation lib doc x) = toUpperCase method)
              \<longleftrightarrow> entryKey x = entryKey ?e"
    if "x \<in> set (allOperations doc)" for x
  proof -
    have "snd (entryKey x) \<in> set methodNames" using that by (rule allOperations_method)
    with m methodNames_upper_inj
    have "toUpperCase (snd (entryKey x)) = toUpperCase method \<longleftrightarrow> snd (entryKey x) = method"
      by blast
    then show ?thesis
      by (auto simp: buildOperation_key entryKey_def prod_eq_iff)
  qed
  have "filter (\<lambda>b. op_path b = path \<and> op_method b = toUpperCase method)
           (service_operations (getService lib doc tag))
      = map (buildOperation lib doc)
          (filter (\<lambda>x. op_path (buildOperation lib doc x) = path
                       \<and> op_method (buildOperation lib doc x) = toUpperCase method)
             (filter ?T (allOperations doc)))"
    by (simp add: getService_operations filter_map comp_def)
  also have "filter (\<lambda>x. op_path (buildOperation lib doc x) = path
                       \<and> op_method (buildOperation lib doc x) = toUpperCase method)
             (filter ?T (allOperations doc))
           = filter ?T (filter (\<lambda>x. entryKey x = entryKey ?e) (allOperations doc))"
    unfolding filter_filter by (rule filter_cong) (auto simp: same)
  also have "filter (\<lambda>x. entryKey x = entryKey ?e) (allOperations doc) = [?e]"
    by (rule filter_same_key[OF allOperations_distinct[OF d] e])
  finally show ?thesis by simp
qed

section \<open>Properties of the response classifier\<close>

text \<open>
  C6. \<^verbatim>\<open>getOperationErrors\<close> returns exactly the entries with code at least 300 and a
  non-empty description, in order, each as its code and description; every error it
  returns has a code of at least 300 and a non-empty description, and an entry with
  code at least 300 whose description is absent or empty yields no error.
\<close>

theorem getOperationErrors_exact:
  "getOperationErrors rs =
     map (\<lambda>r. \<lparr> error_code = code r, error_description = the (description r) \<rparr>)
       (filter (\<lambda>r. code r \<ge> 300 \<and> description r \<noteq> None \<and> description r \<noteq> Some []) rs)
   \<and> (\<forall>e \<in> set (getOperationErrors rs). error_code e \<ge> 300 \<and> error_description e \<noteq> [])
   \<and> (\<forall>r \<in> set rs. code r \<ge> 300 \<and> (description r = None \<or> description r = Some [])
          \<longrightarrow> getOperationErrors [r] = [])"
  by (auto simp: getOperationErrors_def truthy_def)

theorem getOperationErrors_exact_witness:
  "getOperationErrors
     [exampleResponse 200 (Some ''OK'') ''any'' None,
      exampleResponse 304 None ''any'' None,
      exampleResponse 404 (Some ''Not found'') ''any'' None,
      exampleResponse 500 (Some []) ''any'' None]
   = [\<lparr> error_code = 404, error_description = ''Not found'' \<rparr>]
   \<and> getOperationErrors [exampleResponse 304 None ''any'' None] = []"
  using getOperationErrors_exact
    [of "[exampleResponse 200 (Some ''OK'') ''any'' None,
          exampleResponse 304 None ''any'' None,
          exampleResponse 404 (Some ''Not found'') ''any'' None,
          exampleResponse 500 (Some []) ''any'' None]"]
  by (simp add: exampleResponse_def)

text \<open>
  C1, as stated, fails: \<^verbatim>\<open>getOperationResults\<close> does not keep every entry whose code
  lies in [200, 300) and is not 204. Of two such entries with the same type, base and
  template, the second is removed by the final filter.
\<close>

theorem getOperationResults_keeps_exactly_counterexample:
  "200 \<le> code (exampleResponse 201 None ''any'' None)
   \<and> code (exampleResponse 201 None ''any'' None) < 300
   \<and> code (exampleResponse 201 None ''any'' None) \<noteq> 204
   \<and> exampleResponse 201 None ''any'' None
       \<notin> set (getOperationResults
                [exampleResponse 200 None ''any'' None, exampleResponse 201 None ''any'' None])"
  by (simp add: getOperationResults_def filterIndexed_def isSuccessCode_def
        exampleResponse_def asModel_def Let_def)

text \<open>
  C1, amended. Of the entries whose code lies in [200, 300) and is not 204,
  \<^verbatim>\<open>getOperationResults\<close> keeps exactly those that no earlier such entry is
  \<^verbatim>\<open>areEqual\<close> to; when no entry qualifies, also for the empty list, it returns exactly
  the one synthetic response with in = "response", code = 200, type = "void",
  base = "void", empty name and empty description. The result is never empty, so every
  operation built from a responses map has at least one result.
\<close>

theorem getOperationResults_success_or_void:
  "(let pushed = filter (\<lambda>r. 200 \<le> code r \<and> code r < 300 \<and> code r \<noteq> 204) rs in
      getOperationResults rs =
        (if pushed = [] then [voidResult]
         else nths pushed
                {i. \<forall>j<i. \<not> areEqual (asModel (pushed ! j)) (asModel (pushed ! i))}))
   \<and> in' voidResult = ''response'' \<and> code voidResult = 200
   \<and> type voidResult = ''void'' \<and> base voidResult = ''void''
   \<and> name voidResult = [] \<and> description voidResult = Some []
   \<and> getOperationResults rs \<noteq> []
   \<and> (oo_responses op \<noteq> None \<longrightarrow> op_results (getOperation lib doc url m op pp) \<noteq> [])"
proof -
  have same: "(\<lambda>r::operationResponse. isSuccessCode (code r))
            = (\<lambda>r. 200 \<le> code r \<and> code r < 300 \<and> code r \<noteq> 204)"
    by (auto simp: isSuccessCode_def)
  have 1: "let pushed = filter (\<lambda>r. 200 \<le> code r \<and> code r < 300 \<and> code r \<noteq> 204) rs in
      getOperationResults rs =
        (if pushed = [] then [voidResult]
         else nths pushed
                {i. \<forall>j<i. \<not> areEqual (asModel (pushed ! j)) (asModel (pushed ! i))})"
    using getOperationResults_nths[of rs]
    by (simp add: same Let_def firstOccurrences_def)
  have 2: "oo_responses op \<noteq> None \<longrightarrow> op_results (getOperation lib doc url m op pp) \<noteq> []"
    by (auto simp: getOperation_results getOperationResults_nonempty)
  show ?thesis
    using 1 2 by (simp add: voidResult_def getOperationResults_nonempty)
qed

theorem getOperationResults_success_or_void_witness:
  "getOperationResults
     [exampleResponse 200 None ''A'' None, exampleResponse 204 None ''B'' None,
      exampleResponse 201 None ''C'' None, exampleResponse 404 None ''D'' None]
   = [exampleResponse 200 None ''A'' None, exampleResponse 201 None ''C'' None]
   \<and> getOperationResults [exampleResponse 404 None ''D'' None] = [voidResult]
   \<and> getOperationResults [] = [voidResult]
   \<and> oo_responses exampleOperation \<noteq> None
   \<and> op_results (getOperation exampleResolvers exampleDocument ''/x'' ''get''
                    exampleOperation (getOperationParameters exampleResolvers exampleDocument []))
       \<noteq> []"
  using getOperationResults_success_or_void
    [where rs = "[exampleResponse 200 None ''A'' None, exampleResponse 204 None ''B'' None,
                  exampleResponse 201 None ''C'' None, exampleResponse 404 None ''D'' None]"
       and op = exampleOperation and lib = exampleResolvers and doc = exampleDocument
       and url = "''/x''" and m = "''get''"
       and pp = "getOperationParameters exampleResolvers exampleDocument []"]
    getOperationResults_success_or_void [where rs = "[exampleResponse 404 None ''D'' None]"]
    getOperationResults_success_or_void [where rs = "[]"]
  by (simp add: Let_def exampleResponse_def nths_two asModel_def exampleOperation_def)

text \<open>
  C3. \<^verbatim>\<open>getOperationResults\<close> removes duplicates under \<^verbatim>\<open>areEqual\<close>: of the candidate
  list (the success responses, or the synthetic one) it keeps exactly the positions that
  no earlier position is \<^verbatim>\<open>areEqual\<close> to, in their original order. Two entries with
  the same type, base, template and link are \<^verbatim>\<open>areEqual\<close>, and \<^verbatim>\<open>areEqual\<close> compares
  type, base and template and then the links when both sides have one.
\<close>

theorem getOperationResults_first_occurrences:
  "(let pushed = filter (\<lambda>r. isSuccessCode (code r)) rs;
        candidates = (if pushed = [] then [voidResult] else pushed)
    in getOperationResults rs =
         nths candidates
           {i. \<forall>j<i. \<not> areEqual (asModel (candidates ! j)) (asModel (candidates ! i))}
       \<and> subseq (getOperationResults rs) candidates)
   \<and> (asModel x = asModel y \<longrightarrow> areEqual (asModel x) (asModel y))
   \<and> (areEqual a b \<longleftrightarrow>
        l_type a = l_type b \<and> l_base a = l_base b \<and> l_template a = l_template b
        \<and> (case (l_link a, l_link b) of (Some la, Some lb) \<Rightarrow> areEqual la lb | _ \<Rightarrow> True))"
proof (intro conjI)
  define candidates where
    "candidates = (if filter (\<lambda>r. isSuccessCode (code r)) rs = [] then [voidResult]
                   else filter (\<lambda>r. isSuccessCode (code r)) rs)"
  have eq: "getOperationResults rs = nths candidates (firstOccurrences candidates)"
    using getOperationResults_nths[of rs] by (simp add: Let_def candidates_def)
  then have "subseq (getOperationResults rs) candidates"
    using subseq_conv_nths by blast
  with eq show "let pushed = filter (\<lambda>r. isSuccessCode (code r)) rs;
        candidates = (if pushed = [] then [voidResult] else pushed)
    in getOperationResults rs =
         nths candidates
           {i. \<forall>j<i. \<not> areEqual (asModel (candidates ! j)) (asModel (candidates ! i))}
       \<and> subseq (getOperationResults rs) candidates"
    unfolding Let_def candidates_def[symmetric] firstOccurrences_def by simp
  show "asModel x = asModel y \<longrightarrow> areEqual (asModel x) (asModel y)"
    by (simp add: areEqual_refl)
  show "areEqual a b \<longleftrightarrow>
        l_type a = l_type b \<and> l_base a = l_base b \<and> l_template a = l_template b
        \<and> (case (l_link a, l_link b) of (Some la, Some lb) \<Rightarrow> areEqual la lb | _ \<Rightarrow> True)"
    by (rule areEqual_unfold)
qed

theorem getOperationResults_first_occurrences_witness:
  "getOperationResults
     [exampleResponse 200 None ''A'' None, exampleResponse 201 None ''B'' None,
      exampleResponse 202 None ''A'' None, exampleResponse 404 None ''C'' None]
   = [exampleResponse 200 None ''A'' None, exampleResponse 201 None ''B'' None]"
  using getOperationResults_first_occurrences
    [of "[exampleResponse 200 None ''A'' None, exampleResponse 201 None ''B'' None,
          exampleResponse 202 None ''A'' None, exampleResponse 404 None ''C'' None]"]
  by (simp add: Let_def isSuccessCode_def exampleResponse_def nths_three
        firstOccurrences_def asModel_def less_Suc_eq_0_disj)

text \<open>
  C10. \<^verbatim>\<open>areEqual\<close> holds whenever two models agree on type, base and template and
  at least one of them has no link, whatever link the other carries. The relation is
  therefore not transitive, and \<^verbatim>\<open>getOperationResults\<close> collapses a result that
  carries a link with a later link-free result of the same type, base and template.
\<close>

theorem areEqual_one_sided_link:
  "(l_type a = l_type b \<and> l_base a = l_base b \<and> l_template a = l_template b
      \<and> (l_link a = None \<or> l_link b = None) \<longrightarrow> areEqual a b)
   \<and> \<not> (\<forall>x y z. areEqual x y \<longrightarrow> areEqual y z \<longrightarrow> areEqual x z)
   \<and> getOperationResults
        [exampleResponse 200 None ''Array'' (Some stringModel),
         exampleResponse 201 None ''Array'' None]
      = [exampleResponse 200 None ''Array'' (Some stringModel)]"
proof (intro conjI)
  show "l_type a = l_type b \<and> l_base a = l_base b \<and> l_template a = l_template b
      \<and> (l_link a = None \<or> l_link b = None) \<longrightarrow> areEqual a b"
    by (subst areEqual_unfold) (auto split: option.splits)
  have 1: "areEqual (LinkModel ''Array'' ''string'' None (Some stringModel))
             (LinkModel ''Array'' ''string'' None None)"
    by simp
  have 2: "areEqual (LinkModel ''Array'' ''string'' None None)
             (LinkModel ''Array'' ''string'' None (Some numberModel))"
    by simp
  have 3: "\<not> areEqual (LinkModel ''Array'' ''string'' None (Some stringModel))
             (LinkModel ''Array'' ''string'' None (Some numberModel))"
    by (simp add: stringModel_def numberModel_def)
  from 1 2 3 show "\<not> (\<forall>x y z. areEqual x y \<longrightarrow> areEqual y z \<longrightarrow> areEqual x z)"
    by blast
  show "getOperationResults
        [exampleResponse 200 None ''Array'' (Some stringModel),
         exampleResponse 201 None ''Array'' None]
      = [exampleResponse 200 None ''Array'' (Some stringModel)]"
    by (simp add: getOperationResults_def filterIndexed_def isSuccessCode_def
          exampleResponse_def asModel_def Let_def areEqual_refl)
qed

theorem areEqual_one_sided_link_witness:
  "l_link (LinkModel ''Array'' ''string'' None None) = None
   \<and> l_link (LinkModel ''Array'' ''string'' None (Some stringModel)) \<noteq> None
   \<and> areEqual (LinkModel ''Array'' ''string'' None (Some stringModel))
        (LinkModel ''Array'' ''string'' None None)"
  using areEqual_one_sided_link
    [of "LinkModel ''Array'' ''string'' None (Some stringModel)"
        "LinkModel ''Array'' ''string'' None None"]
  by simp





section \<open>Properties of the content negotiator\<close>

text \<open>
  C5. The claim holds for every media-type map without an empty key
  (\<open>getContent_chosen\<close>, \<open>getContent_None_iff\<close>), and fails on the empty key: the two
  \<^verbatim>\<open>if\<close> tests are truthiness tests on the key that was found, so a media type whose
  key is the empty string is found and then discarded, and \<^verbatim>\<open>getContent\<close> returns null
  although a media type carries a schema.
\<close>

theorem getContent_empty_key:
  "hasSchema [([], \<lparr> mt_schema = Defined (refSchema ''#/components/schemas/a'') \<rparr>)] []
   \<and> getContent [([], \<lparr> mt_schema = Defined (refSchema ''#/components/schemas/a'') \<rparr>)] = None
   \<and> getContent [([], \<lparr> mt_schema = Defined (refSchema ''#/components/schemas/a'') \<rparr>),
                  (''application/xml'',
                   \<lparr> mt_schema = Defined (refSchema ''#/components/schemas/b'') \<rparr>)] = None"
  by code_simp

section \<open>Properties of the operation builder\<close>

text \<open>
  C2. The final \<^verbatim>\<open>parameters\<close> of a built operation is the concatenation of the
  inherited path-level parameters, the operation's own classified parameters and, when
  there is a request body, the body parameter, re-sorted so that the parameters that
  are required and have no default come first, each group in its original order. No
  required parameter without default comes after another parameter, and no parameter
  has the declared name or the generated name \<^verbatim>\<open>api-version\<close>.
\<close>

theorem parameters_required_first:
  "(let inherited = getOperationParameters lib doc pathLevel;
        operation = getOperation lib doc url m op inherited;
        own = (case oo_parameters op of None \<Rightarrow> []
               | Some ps \<Rightarrow> parameters (getOperationParameters lib doc ps));
        body = (case oo_requestBody op of None \<Rightarrow> []
                | Some rb \<Rightarrow> [getOperationRequestBody lib doc (getRefRequestBody lib doc rb)]);
        everything = parameters inherited @ own @ body
    in parameters operation
         = filter needsValue everything @ filter (\<lambda>p. \<not> needsValue p) everything
       \<and> (\<forall>i j. i < j \<and> j < length (parameters operation)
              \<and> needsValue (parameters operation ! j)
              \<longrightarrow> needsValue (parameters operation ! i))
       \<and> (\<forall>p \<in> set (parameters operation).
              prop' p \<noteq> ''api-version'' \<and> name p \<noteq> ''api-version''))"
proof -
  define inherited where "inherited = getOperationParameters lib doc pathLevel"
  define operation where "operation = getOperation lib doc url m op inherited"
  define own where "own = (case oo_parameters op of None \<Rightarrow> []
               | Some ps \<Rightarrow> parameters (getOperationParameters lib doc ps))"
  define body where "body = (case oo_requestBody op of None \<Rightarrow> []
                | Some rb \<Rightarrow> [getOperationRequestBody lib doc (getRefRequestBody lib doc rb)])"
  define everything where "everything = parameters inherited @ own @ body"
  have eq: "parameters operation
         = filter needsValue everything @ filter (\<lambda>p. \<not> needsValue p) everything"
    unfolding operation_def everything_def own_def body_def
    by (simp only: getOperation_parameters array_sort_sortByRequired)
  have order: "needsValue (parameters operation ! i)"
    if "i < j" "j < length (parameters operation)" "needsValue (parameters operation ! j)"
    for i j
  proof -
    let ?N = "filter needsValue everything"
    let ?O = "filter (\<lambda>p. \<not> needsValue p) everything"
    have "j < length ?N"
    proof (rule ccontr)
      assume "\<not> j < length ?N"
      then have "parameters operation ! j = ?O ! (j - length ?N)"
        by (simp add: eq nth_append)
      moreover have "j - length ?N < length ?O"
        using that(2) \<open>\<not> j < length ?N\<close> by (simp add: eq)
      ultimately have "parameters operation ! j \<in> set ?O"
        by (metis nth_mem)
      then show False using that(3) by simp
    qed
    with that(1) have i: "i < length ?N" by simp
    then have "?N ! i \<in> set ?N" by (rule nth_mem)
    moreover have "parameters operation ! i = ?N ! i"
      using i by (simp add: eq nth_append)
    ultimately show ?thesis by simp
  qed
  have no: "prop' p \<noteq> ''api-version'' \<and> name p \<noteq> ''api-version''"
    if "p \<in> set (parameters operation)" for p
  proof -
    from that have "p \<in> set everything" by (auto simp: eq)
    then consider "p \<in> set (parameters inherited)" | "p \<in> set own" | "p \<in> set body"
      by (auto simp: everything_def)
    then show ?thesis
    proof cases
      case 1
      then show ?thesis
        unfolding inherited_def by (rule getOperationParameters_no_api_version)
    next
      case 2
      then show ?thesis
        unfolding own_def
        by (cases "oo_parameters op") (auto dest: getOperationParameters_no_api_version)
    next
      case 3
      then obtain rb where
        p: "p = getOperationRequestBody lib doc (getRefRequestBody lib doc rb)"
        unfolding body_def by (cases "oo_requestBody op") auto
      have "prop' p = ''body'' \<or> prop' p = ''formData''"
        using getOperationRequestBody_prop(1)[of lib doc "getRefRequestBody lib doc rb"]
        unfolding p by blast
      moreover have "name p = ''body'' \<or> name p = ''formData''"
        using getOperationRequestBody_prop(2)[of lib doc "getRefRequestBody lib doc rb"]
        unfolding p by blast
      ultimately show ?thesis by auto
    qed
  qed
  from eq order no show ?thesis
    unfolding Let_def inherited_def[symmetric] operation_def[symmetric] own_def[symmetric]
      body_def[symmetric] everything_def[symmetric]
    by blast
qed


theorem parameters_required_first_witness:
  "map prop'
     (parameters
        (getOperation exampleResolvers exampleDocument
           ''/notifications/threads/{thread_id}/subscription'' ''get'' exampleOperation
           (getOperationParameters exampleResolvers exampleDocument
              (the (pi_parameters examplePathItem)))))
   = [''thread_id'', ''since'', ''per_page'', ''all'', ''body'']
   \<and> map needsValue
     (parameters
        (getOperation exampleResolvers exampleDocument
           ''/notifications/threads/{thread_id}/subscription'' ''get'' exampleOperation
           (getOperationParameters exampleResolvers exampleDocument
              (the (pi_parameters examplePathItem)))))
   = [True, True, False, False, False]
   \<and> ''api-version''
       \<notin> prop' ` set (parameters
        (getOperation exampleResolvers exampleDocument
           ''/notifications/threads/{thread_id}/subscription'' ''get'' exampleOperation
           (getOperationParameters exampleResolvers exampleDocument
              (the (pi_parameters examplePathItem)))))"
proof -
  note w = parameters_required_first
    [where lib = exampleResolvers and doc = exampleDocument
       and pathLevel = "the (pi_parameters examplePathItem)"
       and url = "''/notifications/threads/{thread_id}/subscription''" and m = "''get''"
       and op = exampleOperation]
  have e1: "map prop'
     (parameters
        (getOperation exampleResolvers exampleDocument
           ''/notifications/threads/{thread_id}/subscription'' ''get'' exampleOperation
           (getOperationParameters exampleResolvers exampleDocument
              (the (pi_parameters examplePathItem)))))
   = [''thread_id'', ''since'', ''per_page'', ''all'', ''body'']"
    by code_simp
  have e2: "map needsValue
     (parameters
        (getOperation exampleResolvers exampleDocument
           ''/notifications/threads/{thread_id}/subscription'' ''get'' exampleOperation
           (getOperationParameters exampleResolvers exampleDocument
              (the (pi_parameters examplePathItem)))))
   = [True, True, False, False, False]"
    by code_simp
  from w have "\<forall>p \<in> set (parameters
        (getOperation exampleResolvers exampleDocument
           ''/notifications/threads/{thread_id}/subscription'' ''get'' exampleOperation
           (getOperationParameters exampleResolvers exampleDocument
              (the (pi_parameters examplePathItem))))). prop' p \<noteq> ''api-version''"
    unfolding Let_def by blast
  then have e3: "''api-version''
       \<notin> prop' ` set (parameters
        (getOperation exampleResolvers exampleDocument
           ''/notifications/threads/{thread_id}/subscription'' ''get'' exampleOperation
           (getOperationParameters exampleResolvers exampleDocument
              (the (pi_parameters examplePathItem)))))"
    by (auto simp: image_iff)
  from e1 e2 e3 show ?thesis by (intro conjI)
qed



section \<open>Properties of the service aggregator\<close>

text \<open>
  C8. The operations of the service built for a tag are the operations built, in
  document order, for exactly the declared operations that have a tag list containing
  the tag's name. With the paths of the document distinct, the service holds, at the
  path and method of a declared operation, that one built operation when the tag list
  contains the service's name and nothing otherwise. The built operation does not
  depend on the service, so an operation with two declared tags appears once in each
  of the two services, as the same value, and an operation without tags appears in no
  service.
\<close>

theorem service_operations_by_tag:
  "service_name (getService lib doc tag) = tag_name tag
   \<and> service_operations (getService lib doc tag) =
       map (buildOperation lib doc)
         (filter (\<lambda>(path, pathObject, method, op). hasTag (tag_name tag) op)
            (allOperations doc))
   \<and> getServices lib doc =
       map (getService lib doc) (case doc_tags doc of Some ts \<Rightarrow> ts | None \<Rightarrow> [])
   \<and> (distinct (map fst (case doc_paths doc of Some ps \<Rightarrow> ps | None \<Rightarrow> []))
        \<and> (path, pathObject, m, op) \<in> set (allOperations doc)
       \<longrightarrow> filter (\<lambda>b. op_path b = path \<and> op_method b = toUpperCase m)
             (service_operations (getService lib doc tag))
           = (if hasTag (tag_name tag) op
              then [buildOperation lib doc (path, pathObject, m, op)] else []))
   \<and> (hasTag n op \<longleftrightarrow> (\<exists>tags. oo_tags op = Some tags \<and> n \<in> set tags))"
proof (intro conjI impI)
  show "service_name (getService lib doc tag) = tag_name tag"
    by (rule getService_name)
  show "service_operations (getService lib doc tag) =
       map (buildOperation lib doc)
         (filter (\<lambda>(path, pathObject, method, op). hasTag (tag_name tag) op)
            (allOperations doc))"
    by (rule getService_operations)
  show "getServices lib doc =
       map (getService lib doc) (case doc_tags doc of Some ts \<Rightarrow> ts | None \<Rightarrow> [])"
    by (simp add: getServices_def)
  show "hasTag n op \<longleftrightarrow> (\<exists>tags. oo_tags op = Some tags \<and> n \<in> set tags)"
    by (cases "oo_tags op") (simp_all add: hasTag_def)
next
  assume a: "distinct (map fst (case doc_paths doc of Some ps \<Rightarrow> ps | None \<Rightarrow> []))
        \<and> (path, pathObject, m, op) \<in> set (allOperations doc)"
  show "filter (\<lambda>b. op_path b = path \<and> op_method b = toUpperCase m)
             (service_operations (getService lib doc tag))
           = (if hasTag (tag_name tag) op
              then [buildOperation lib doc (path, pathObject, m, op)] else [])"
    by (rule service_operations_at[OF conjunct1[OF a] conjunct2[OF a]])
qed

theorem service_operations_by_tag_witness:
  "filter (\<lambda>b. op_path b = examplePath \<and> op_method b = ''GET'')
     (service_operations (getService exampleResolvers exampleDocument activityTag))
   = [buildOperation exampleResolvers exampleDocument
        (examplePath, examplePathItem, ''get'', exampleOperation)]
   \<and> filter (\<lambda>b. op_path b = examplePath \<and> op_method b = ''GET'')
     (service_operations (getService exampleResolvers exampleDocument adminTag))
   = [buildOperation exampleResolvers exampleDocument
        (examplePath, examplePathItem, ''get'', exampleOperation)]
   \<and> filter (\<lambda>b. op_path b = examplePath \<and> op_method b = ''PUT'')
     (service_operations (getService exampleResolvers exampleDocument activityTag))
   = []"
proof -
  have d: "distinct (map fst (case doc_paths exampleDocument of Some ps \<Rightarrow> ps | None \<Rightarrow> []))"
    by (simp add: exampleDocument_def)
  have all: "allOperations exampleDocument
             = [(examplePath, examplePathItem, ''get'', exampleOperation),
                (examplePath, examplePathItem, ''put'', untaggedOperation)]"
    by (simp add: allOperations_def exampleDocument_def pathEntries_def methodEntries_def
          examplePathItem_def examplePath_def)
  have g: "(examplePath, examplePathItem, ''get'', exampleOperation)
             \<in> set (allOperations exampleDocument)"
    and p: "(examplePath, examplePathItem, ''put'', untaggedOperation)
             \<in> set (allOperations exampleDocument)"
    by (simp_all add: all)
  have t: "hasTag (tag_name activityTag) exampleOperation"
          "hasTag (tag_name adminTag) exampleOperation"
          "\<not> hasTag (tag_name activityTag) untaggedOperation"
    by (simp_all add: hasTag_def activityTag_def adminTag_def exampleOperation_def
          untaggedOperation_def)
  have u: "toUpperCase ''get'' = ''GET''" "toUpperCase ''put'' = ''PUT''"
    by code_simp+
  note w = service_operations_by_tag[where lib = exampleResolvers and doc = exampleDocument
             and path = examplePath and pathObject = examplePathItem]
  from w[where tag = activityTag and m = "''get''" and op = exampleOperation
           and n = "''activity''"] d g t(1)
  have 1: "filter (\<lambda>b. op_path b = examplePath \<and> op_method b = toUpperCase ''get'')
     (service_operations (getService exampleResolvers exampleDocument activityTag))
   = [buildOperation exampleResolvers exampleDocument
        (examplePath, examplePathItem, ''get'', exampleOperation)]"
    by auto
  from w[where tag = adminTag and m = "''get''" and op = exampleOperation
           and n = "''admin''"] d g t(2)
  have 2: "filter (\<lambda>b. op_path b = examplePath \<and> op_method b = toUpperCase ''get'')
     (service_operations (getService exampleResolvers exampleDocument adminTag))
   = [buildOperation exampleResolvers exampleDocument
        (examplePath, examplePathItem, ''get'', exampleOperation)]"
    by auto
  from w[where tag = activityTag and m = "''put''" and op = untaggedOperation
           and n = "''activity''"] d p t(3)
  have 3: "filter (\<lambda>b. op_path b = examplePath \<and> op_method b = toUpperCase ''put'')
     (service_operations (getService exampleResolvers exampleDocument activityTag))
   = []"
    by auto
  from 1 2 3 show ?thesis unfolding u by (intro conjI)
qed

section \<open>Properties of the identifier sanitizer\<close>




end
